theory Spec2Isabelle
  imports
    Main
    "HOL-Library.Word"
    "HOL-Library.Char_ord"
    "HOL-Library.List_Lexorder"
    "HOL-Library.AList"
begin

section \<open>Data model\<close>

text \<open>
  The block service and the transaction pool of \<^verbatim>\<open>src/core/service/block.ts\<close>,
  embedded as functions over explicit state.  JavaScript numbers that hold integers are
  \<open>int\<close>; strings are \<open>string\<close>; a value that may be \<^verbatim>\<open>undefined\<close> or
  \<^verbatim>\<open>null\<close> is an \<open>option\<close>.
\<close>

type_synonym byte = "8 word"

datatype TransactionType =
  REGISTER | SEND | SIGNATURE | DELEGATE | STAKE | VOTE | OTHER_TYPE nat

datatype TransactionStatus =
  CREATED | VALIDATED | QUEUED | PUT_IN_POOL | UNCONFIRM_APPLIED | CONFIRMED

datatype TransactionLifecycle =
  PUSH_IN_POOL | POP_FOR_BLOCK | REMOVED_BY_SENDER_ADDRESS | REMOVED_BY_RECIPIENT_ADDRESS
  | UNDO_BY_FAILED_APPLY

datatype BlockLifecycle =
  LC_VALIDATE | LC_CREATE | LC_RECEIVE | LC_PROCESS | LC_VERIFY | LC_APPLY | LC_UNDO

text \<open>
  The asset of a transaction, flattened to the fields the pool and the block service
  read: \<open>recipientAddress\<close> and \<open>asset_amount\<close> of a transfer, \<open>reward\<close>, \<open>unstake\<close>
  and the entries of \<^verbatim>\<open>airdropReward.sponsors\<close> of a vote or a stake.
\<close>

record asset =
  recipientAddress :: string
  asset_amount :: int
  reward :: int
  unstake :: int
  sponsors :: "(string \<times> int) list"

text \<open>
  A transaction object.  \<open>obj_ref\<close> stands for the identity of the object: two
  objects with the same contents are different values, as \<^verbatim>\<open>indexOf\<close> and
  \<^verbatim>\<open>===\<close> tell them apart; no function of the model reads or writes it.
\<close>

record transaction =
  obj_ref :: nat
  trs_id :: string
  trs_type :: TransactionType
  senderPublicKey :: string
  senderAddress :: string
  trs_fee :: int
  trs_createdAt :: int
  trs_signature :: string
  secondSignature :: "string option"
  trs_asset :: asset
  blockId :: "string option"
  status :: TransactionStatus

record block =
  blk_id :: string
  version :: int
  height :: int
  previousBlockId :: "string option"
  createdAt :: int
  generatorPublicKey :: string
  signature :: string
  payloadHash :: string
  transactionCount :: int
  amount :: int
  fee :: int
  transactions :: "transaction list"

text \<open>
  Modelled from the spec: the response envelope \<^verbatim>\<open>ResponseEntity\<close> of
  \<^verbatim>\<open>shared/model/response\<close> (not among the sources) carries \<open>errors\<close> and
  \<open>success\<close>; it is successful exactly when it carries no error.
\<close>

record 'd ResponseEntity =
  errors :: "string list"
  data :: "'d option"

definition success :: "'d ResponseEntity \<Rightarrow> bool" where
  "success r = (errors r = [])"

definition response_errors :: "string list \<Rightarrow> unit ResponseEntity" where
  "response_errors es = \<lparr> errors = es, data = None \<rparr>"

definition response_ok :: "unit ResponseEntity" where
  "response_ok = response_errors []"

section \<open>Collaborators\<close>

text \<open>
  Every call the two services make on a collaborator whose code is not among the sources
  is recorded, in order, in the call log of the system state.
\<close>

datatype call =
    ApplyUnconfirmed transaction
  | UndoUnconfirmed transaction
  | ApplyConfirmed transaction
  | UndoConfirmed transaction
  | QueuePush transaction
  | TransactionHistory transaction TransactionLifecycle
  | SendUnconfirmedTransaction transaction
  | BlockHistory block BlockLifecycle
  | BatchSave block
  | DeleteById string
  | StoragePush block
  | StoragePopLast
  | RestoreToSlot int
  | SetForged string bool
  | EmitEvent string block
  | SendNewBlock block
  | MessageON string

text \<open>
  The state of the collaborators (account registry, dispatcher-owned state, rounds, block
  storage, durable store) is a value of an arbitrary type \<open>'w\<close>; \<open>'a\<close> is the type of a
  reference to an account object.
\<close>

record 'w sys =
  ext :: 'w
  calls :: "call list"

record ('w, 'a) AccountRepository =
  getByAddress :: "'w \<Rightarrow> string \<Rightarrow> 'a option"
  getByPublicKey :: "'w \<Rightarrow> string \<Rightarrow> 'a option"
  add :: "string \<Rightarrow> string \<Rightarrow> 'w \<Rightarrow> 'a \<times> 'w"
  accountPublicKey :: "'w \<Rightarrow> 'a \<Rightarrow> string option"
  setAccountPublicKey :: "'a \<Rightarrow> string \<Rightarrow> 'w \<Rightarrow> 'w"

record ('w, 'a) TransactionDispatcher =
  verifyUnconfirmed :: "transaction \<Rightarrow> 'a option \<Rightarrow> 'w \<Rightarrow> unit ResponseEntity"
  calculateFee :: "transaction \<Rightarrow> 'a option \<Rightarrow> 'w \<Rightarrow> int"
  applyUnconfirmed :: "transaction \<Rightarrow> 'a option \<Rightarrow> 'w \<Rightarrow> 'w"
  undoUnconfirmed :: "transaction \<Rightarrow> 'a option \<Rightarrow> 'w \<Rightarrow> 'w"
  applyConfirmed :: "transaction \<Rightarrow> 'a option \<Rightarrow> 'w \<Rightarrow> 'w"
  undoConfirmed :: "transaction \<Rightarrow> 'a option \<Rightarrow> 'w \<Rightarrow> 'w"
  trsGetBytes :: "transaction \<Rightarrow> string + byte list"

definition logCalls :: "call list \<Rightarrow> 'w sys \<Rightarrow> 'w sys" where
  "logCalls cs s = s\<lparr> calls := calls s @ cs \<rparr>"

section \<open>Transaction pool\<close>

text \<open>
  \<open>pool\<close> is a JavaScript \<^verbatim>\<open>Map\<close>, whose \<^verbatim>\<open>values()\<close> come in insertion order: an
  association list.  The two indices are never iterated: finite maps to lists.
\<close>

record pool_state =
  pool :: "(string \<times> transaction) list"
  poolByRecipient :: "string \<rightharpoonup> transaction list"
  poolBySender :: "string \<rightharpoonup> transaction list"

definition getByRecipientAddress :: "pool_state \<Rightarrow> string \<Rightarrow> transaction list" where
  "getByRecipientAddress p recipient =
     (case poolByRecipient p recipient of None \<Rightarrow> [] | Some l \<Rightarrow> l)"

definition getBySenderAddress :: "pool_state \<Rightarrow> string \<Rightarrow> transaction list" where
  "getBySenderAddress p sender =
     (case poolBySender p sender of None \<Rightarrow> [] | Some l \<Rightarrow> l)"

definition has :: "pool_state \<Rightarrow> transaction \<Rightarrow> bool" where
  "has p trs = (map_of (pool p) (trs_id trs) \<noteq> None)"

definition addOneToPoolByRecipient ::
  "string \<Rightarrow> transaction \<Rightarrow> pool_state \<Rightarrow> pool_state" where
  "addOneToPoolByRecipient address trs p =
     p\<lparr> poolByRecipient := (poolByRecipient p)
          (address \<mapsto> (case poolByRecipient p address of None \<Rightarrow> [] | Some l \<Rightarrow> l) @ [trs]) \<rparr>"

definition removeOneFromPoolByRecipient ::
  "string \<Rightarrow> transaction \<Rightarrow> pool_state \<Rightarrow> pool_state" where
  "removeOneFromPoolByRecipient address trs p =
     (case poolByRecipient p address of
        None \<Rightarrow> p
      | Some l \<Rightarrow>
          if trs \<in> set l
          then p\<lparr> poolByRecipient := (poolByRecipient p)(address \<mapsto> remove1 trs l) \<rparr>
          else p)"

text \<open>
  \<open>push\<close> writes \<open>trs.status\<close> twice; every reference to the object sees the last value,
  so the maps hold the transaction with its final status, and the caller's object, which
  \<open>push\<close> returns here, has it too.  The dispatcher is called between the two writes.
\<close>

definition push ::
  "('w, 'a) AccountRepository \<Rightarrow> ('w, 'a) TransactionDispatcher \<Rightarrow>
     transaction \<Rightarrow> 'a option \<Rightarrow> bool \<Rightarrow> pool_state \<Rightarrow> 'w sys \<Rightarrow>
     transaction \<times> pool_state \<times> 'w sys" where
  "push AR TD trs sender broadcast p s =
     (if has p trs then (trs, p, s)
      else
        let trs1 = trs\<lparr> status := PUT_IN_POOL \<rparr>;
            trs2 = trs\<lparr> status := UNCONFIRM_APPLIED \<rparr>;
            p1 = p\<lparr> pool := AList.update (trs_id trs) trs2 (pool p) \<rparr>;
            p2 = p1\<lparr> poolBySender := (poolBySender p1)
                   (senderAddress trs \<mapsto>
                      (case poolBySender p1 (senderAddress trs) of None \<Rightarrow> [] | Some l \<Rightarrow> l)
                        @ [trs2]) \<rparr>;
            p3 = (if trs_type trs = SEND
                  then addOneToPoolByRecipient (recipientAddress (trs_asset trs)) trs2 p2
                  else p2);
            p4 = (if trs_type trs = VOTE
                       \<and> \<not> (reward (trs_asset trs) = 0 \<and> unstake (trs_asset trs) = 0)
                  then fold (\<lambda>address. addOneToPoolByRecipient address trs2)
                         (map fst (sponsors (trs_asset trs))) p3
                  else p3);
            p5 = (if trs_type trs = STAKE
                  then fold (\<lambda>address. addOneToPoolByRecipient address trs2)
                         (map fst (sponsors (trs_asset trs))) p4
                  else p4);
            sender1 = (case sender of
                         None \<Rightarrow> getByAddress AR (ext s) (senderAddress trs)
                       | Some a \<Rightarrow> Some a);
            s1 = logCalls [ApplyUnconfirmed trs1, TransactionHistory trs1 PUSH_IN_POOL]
                   (s\<lparr> ext := applyUnconfirmed TD trs1 sender1 (ext s) \<rparr>);
            s2 = (if broadcast then logCalls [SendUnconfirmedTransaction trs2] s1 else s1)
        in (trs2, p5, s2))"

text \<open>
  \<open>remove\<close> catches whatever \<open>undoUnconfirmed\<close> throws and goes on, so the dispatcher's
  undo is any state transformer here.  \<^verbatim>\<open>indexOf\<close> and \<^verbatim>\<open>splice(i, 1)\<close> remove the
  first occurrence.
\<close>

definition remove ::
  "('w, 'a) AccountRepository \<Rightarrow> ('w, 'a) TransactionDispatcher \<Rightarrow>
     transaction \<Rightarrow> pool_state \<Rightarrow> 'w sys \<Rightarrow> bool \<times> pool_state \<times> 'w sys" where
  "remove AR TD trs p s =
     (if map_of (pool p) (trs_id trs) = None then (False, p, s)
      else
        let sender = getByPublicKey AR (ext s) (senderPublicKey trs);
            s1 = logCalls [UndoUnconfirmed trs] (s\<lparr> ext := undoUnconfirmed TD trs sender (ext s) \<rparr>);
            p1 = p\<lparr> pool := AList.delete (trs_id trs) (pool p) \<rparr>;
            p2 = (case poolBySender p1 (senderAddress trs) of
                    None \<Rightarrow> p1
                  | Some l \<Rightarrow>
                      if trs \<in> set l
                      then p1\<lparr> poolBySender :=
                                (poolBySender p1)(senderAddress trs \<mapsto> remove1 trs l) \<rparr>
                      else p1);
            p3 = (if trs_type trs = SEND
                  then removeOneFromPoolByRecipient (recipientAddress (trs_asset trs)) trs p2
                  else p2);
            p4 = (if trs_type trs = VOTE \<or> trs_type trs = STAKE
                  then fold (\<lambda>address. removeOneFromPoolByRecipient address trs)
                         (map fst (sponsors (trs_asset trs))) p3
                  else p3)
        in (True, p4, s1))"

text \<open>
  Modelled from the spec: \<^verbatim>\<open>transactionSortFunc\<close> of \<^verbatim>\<open>core/util/transaction\<close> (not
  among the sources) compares the numeric type first, then \<open>createdAt\<close>, then the id as
  a string.  The numbers of the types are declared with the enum, outside the sources:
  \<open>typeNumber\<close> is a parameter.
\<close>

definition transactionSortFunc ::
  "(TransactionType \<Rightarrow> int) \<Rightarrow> transaction \<Rightarrow> transaction \<Rightarrow> int" where
  "transactionSortFunc typeNumber a b =
     (if typeNumber (trs_type a) < typeNumber (trs_type b) then -1
      else if typeNumber (trs_type a) > typeNumber (trs_type b) then 1
      else if trs_createdAt a < trs_createdAt b then -1
      else if trs_createdAt a > trs_createdAt b then 1
      else if trs_id a < trs_id b then -1
      else if trs_id a > trs_id b then 1
      else 0)"

text \<open>
  \<^verbatim>\<open>Array.prototype.sort(compare)\<close>: a stable sort by the comparison function, here by
  insertion.  \<^verbatim>\<open>slice(0, limit)\<close> counts a negative limit from the end of the array.
\<close>

fun insort_cmp :: "('a \<Rightarrow> 'a \<Rightarrow> int) \<Rightarrow> 'a \<Rightarrow> 'a list \<Rightarrow> 'a list" where
  "insort_cmp c x [] = [x]"
| "insort_cmp c x (y # ys) = (if c x y \<le> 0 then x # y # ys else y # insort_cmp c x ys)"

definition sort_cmp :: "('a \<Rightarrow> 'a \<Rightarrow> int) \<Rightarrow> 'a list \<Rightarrow> 'a list" where
  "sort_cmp c xs = foldr (insort_cmp c) xs []"





text \<open>
  \<^verbatim>\<open>indexOf\<close> gives the first index at which the transaction stands.
\<close>

fun indexOf :: "'a list \<Rightarrow> 'a \<Rightarrow> int" where
  "indexOf [] x = -1"
| "indexOf (y # ys) x =
     (if y = x then 0 else (let i = indexOf ys x in if i = -1 then -1 else i + 1))"

definition isPotentialConflict ::
  "(TransactionType \<Rightarrow> int) \<Rightarrow> pool_state \<Rightarrow> transaction \<Rightarrow> bool" where
  "isPotentialConflict typeNumber p trs =
     (let recipientTrs = (case poolByRecipient p (senderAddress trs) of
                            None \<Rightarrow> [] | Some l \<Rightarrow> l);
          senderTrs = (case poolBySender p (senderAddress trs) of
                         None \<Rightarrow> [] | Some l \<Rightarrow> l);
          dependTransactions = recipientTrs @ senderTrs
      in if length dependTransactions = 0 then False
         else if trs_type trs = SIGNATURE then True
         else if trs_type trs = REGISTER
                   \<and> find (\<lambda>t. trs_type t = REGISTER) dependTransactions \<noteq> None
         then True
         else
           (let sorted = sort_cmp (transactionSortFunc typeNumber) (dependTransactions @ [trs])
            in indexOf sorted trs \<noteq> int (length sorted) - 1))"


section \<open>Collaborators of the block service\<close>

datatype exn = TypeError | Thrown string

record keypair =
  publicKey :: "byte list"
  privateKey :: "byte list"

record slot_entry =
  slot :: int
  isForged :: bool

record round =
  slots :: "string \<rightharpoonup> slot_entry"
  startHeight :: int

text \<open>
  \<^verbatim>\<open>sodium\<close> and \<^verbatim>\<open>crypto\<close>.  \<open>crypto_sign_verify_detached\<close> gives \<open>Inl\<close> of the
  thrown error's text when it throws.
\<close>

record Crypto =
  sha256 :: "byte list \<Rightarrow> byte list"
  crypto_sign_verify_detached :: "byte list \<Rightarrow> byte list \<Rightarrow> byte list \<Rightarrow> string + bool"
  crypto_sign_detached :: "byte list \<Rightarrow> byte list \<Rightarrow> byte list"

text \<open>
  \<^verbatim>\<open>BlockStorageService\<close> and \<^verbatim>\<open>BlockPGRepo\<close>.
\<close>

record 'w BlockStorage =
  getLast :: "'w \<Rightarrow> block option"
  storageHas :: "'w \<Rightarrow> string \<Rightarrow> bool"
  storagePush :: "block \<Rightarrow> 'w \<Rightarrow> 'w"
  popLast :: "'w \<Rightarrow> block option \<times> 'w"
  batchSave :: "block \<Rightarrow> 'w \<Rightarrow> unit ResponseEntity \<times> 'w"
  deleteById :: "string \<Rightarrow> 'w \<Rightarrow> unit ResponseEntity \<times> 'w"

text \<open>
  \<^verbatim>\<open>SlotService\<close>, \<^verbatim>\<open>DelegateService\<close>, \<^verbatim>\<open>FailService\<close>, \<^verbatim>\<open>RoundRepository\<close>
  and \<^verbatim>\<open>RoundService\<close>.  \<open>currentSlotNumber\<close> is \<^verbatim>\<open>getSlotNumber()\<close> without an
  argument, which reads the clock.
\<close>

record 'w Rounds =
  getSlotNumber :: "int \<Rightarrow> int"
  currentSlotNumber :: "'w \<Rightarrow> int"
  getActiveDelegatesCount :: "'w \<Rightarrow> int"
  isValidateBlockSlot :: "int \<Rightarrow> bool"
  getCurrentRound :: "'w \<Rightarrow> round option"
  setForged :: "string \<Rightarrow> bool \<Rightarrow> 'w \<Rightarrow> 'w"
  restoreToSlot :: "int \<Rightarrow> 'w \<Rightarrow> 'w"

text \<open>
  \<^verbatim>\<open>SyncService.getMyConsensus\<close>, \<^verbatim>\<open>System.synchronization\<close>, the constants of the
  configuration, and the two predicates of \<^verbatim>\<open>core/util/block\<close> that the spec names
  without defining: \<open>isNext\<close> (the received block is the immediate next block of the
  last one) and \<open>isBlockCanBeProcessed\<close> (it is eligible for processing).
\<close>

record 'w Node =
  getMyConsensus :: "'w \<Rightarrow> bool"
  synchronization :: "'w \<Rightarrow> bool"
  currentBlockVersion :: int
  MAX_TRANSACTIONS_PER_BLOCK :: int
  MIN_ROUND_BLOCK_HEIGHT :: int
  isNext :: "block \<Rightarrow> block \<Rightarrow> bool"
  isBlockCanBeProcessed :: "block \<Rightarrow> block \<Rightarrow> bool"

record ('w, 'a) env =
  AccountRepo :: "('w, 'a) AccountRepository"
  Dispatcher :: "('w, 'a) TransactionDispatcher"
  CryptoLib :: Crypto
  Storage :: "'w BlockStorage"
  RoundSvc :: "'w Rounds"
  NodeCfg :: "'w Node"

section \<open>Bytes, hexadecimal and decimal text\<close>

definition hexval :: "char \<Rightarrow> nat option" where
  "hexval c =
     (let n = of_char c :: nat
      in if 48 \<le> n \<and> n \<le> 57 then Some (n - 48)
         else if 97 \<le> n \<and> n \<le> 102 then Some (n - 87)
         else if 65 \<le> n \<and> n \<le> 70 then Some (n - 55)
         else None)"

text \<open>
  \<^verbatim>\<open>Buffer.from(s, 'hex')\<close> decodes two digits to a byte and stops at the first pair
  that is not hexadecimal; a last single digit is dropped.
\<close>

fun from_hex :: "string \<Rightarrow> byte list" where
  "from_hex (a # b # rest) =
     (case hexval a of
        None \<Rightarrow> []
      | Some x \<Rightarrow>
          (case hexval b of
             None \<Rightarrow> []
           | Some y \<Rightarrow> word_of_nat (16 * x + y) # from_hex rest))"
| "from_hex _ = []"

definition hexdigit :: "nat \<Rightarrow> char" where
  "hexdigit n = ''0123456789abcdef'' ! (n mod 16)"

definition to_hex :: "byte list \<Rightarrow> string" where
  "to_hex bs = concat (map (\<lambda>b. [hexdigit (unat b div 16), hexdigit (unat b mod 16)]) bs)"

fun show_nat :: "nat \<Rightarrow> string" where
  "show_nat n =
     (if n < 10 then [char_of (48 + n)] else show_nat (n div 10) @ [char_of (48 + n mod 10)])"

definition show_int :: "int \<Rightarrow> string" where
  "show_int i = (if i < 0 then CHR ''-'' # show_nat (nat (- i)) else show_nat (nat i))"

text \<open>
  Modelled from the spec: the helpers of \<^verbatim>\<open>core/util/buffer\<close> (not among the
  sources).  The lengths are those their names give, 4 bytes for \<^verbatim>\<open>UINT32\<close> and 8
  for \<^verbatim>\<open>INT64\<close>; a write puts the value at the offset in little-endian order and
  returns the offset after it.
\<close>

definition BUFFER_LENGTH_UINT32 :: nat where
  "BUFFER_LENGTH_UINT32 = 4"

definition BUFFER_LENGTH_INT64 :: nat where
  "BUFFER_LENGTH_INT64 = 8"

definition le_bytes :: "nat \<Rightarrow> int \<Rightarrow> byte list" where
  "le_bytes n v = map (\<lambda>k. word_of_int (v div 256 ^ k)) [0..<n]"

definition write_at :: "byte list \<Rightarrow> nat \<Rightarrow> byte list \<Rightarrow> byte list" where
  "write_at buf offset bs = take offset buf @ bs @ drop (offset + length bs) buf"

definition writeInt32LE :: "byte list \<Rightarrow> int \<Rightarrow> nat \<Rightarrow> byte list \<times> nat" where
  "writeInt32LE buf v offset = (write_at buf offset (le_bytes 4 v), offset + 4)"

definition writeUInt64LE :: "byte list \<Rightarrow> int \<Rightarrow> nat \<Rightarrow> byte list \<times> nat" where
  "writeUInt64LE buf v offset = (write_at buf offset (le_bytes 8 v), offset + 8)"

section \<open>Block service\<close>

definition BLOCK_BUFFER_SIZE :: nat where
  "BLOCK_BUFFER_SIZE =
     BUFFER_LENGTH_UINT32 + BUFFER_LENGTH_INT64 + BUFFER_LENGTH_UINT32
       + BUFFER_LENGTH_INT64 + BUFFER_LENGTH_INT64"

definition getBytes :: "block \<Rightarrow> bool \<Rightarrow> byte list" where
  "getBytes block skipSignature =
     (case writeInt32LE (replicate BLOCK_BUFFER_SIZE 0) (version block) 0 of
        (buf1, offset1) \<Rightarrow>
     (case writeInt32LE buf1 (createdAt block) offset1 of
        (buf2, offset2) \<Rightarrow>
     (case writeInt32LE buf2 (transactionCount block) offset2 of
        (buf3, offset3) \<Rightarrow>
     (case writeUInt64LE buf3 (amount block) offset3 of
        (buf4, offset4) \<Rightarrow>
     (case writeUInt64LE buf4 (fee block) offset4 of
        (buf, offset5) \<Rightarrow>
          buf
          @ from_hex (case previousBlockId block of
                        None \<Rightarrow> []
                      | Some prev \<Rightarrow> prev)
          @ from_hex (payloadHash block)
          @ from_hex (generatorPublicKey block)
          @ from_hex (if \<not> skipSignature \<and> signature block \<noteq> []
                      then signature block else []))))))"

definition getHash :: "Crypto \<Rightarrow> block \<Rightarrow> bool \<Rightarrow> byte list" where
  "getHash C block skipSignature = sha256 C (getBytes block skipSignature)"

definition getId :: "Crypto \<Rightarrow> block \<Rightarrow> string" where
  "getId C block = to_hex (getHash C block False)"

definition calculateSignature :: "Crypto \<Rightarrow> block \<Rightarrow> keypair \<Rightarrow> string" where
  "calculateSignature C block keyPair =
     to_hex (crypto_sign_detached C (getHash C block True) (privateKey keyPair))"

subsection \<open>verifyBlock\<close>

definition verifySignature :: "Crypto \<Rightarrow> block \<Rightarrow> string list \<Rightarrow> string list" where
  "verifySignature C block errs =
     (case crypto_sign_verify_detached C (from_hex (signature block)) (getHash C block True)
             (from_hex (generatorPublicKey block)) of
        Inl e \<Rightarrow> errs @ [e, ''Failed to validate block signature'']
      | Inr valid \<Rightarrow>
          if \<not> valid then errs @ [''Failed to validate block signature''] else errs)"

definition verifyPreviousBlock :: "block \<Rightarrow> string list \<Rightarrow> string list" where
  "verifyPreviousBlock block errs =
     (if (previousBlockId block = None \<or> previousBlockId block = Some [])
           \<and> height block \<noteq> 1
      then errs @ [''Invalid previous block''] else errs)"

definition verifyVersion :: "'w Node \<Rightarrow> block \<Rightarrow> string list \<Rightarrow> string list" where
  "verifyVersion N block errs =
     (if version block \<noteq> currentBlockVersion N
      then errs @ [''Invalid block version'',
                   ''No exceptions found. Block version doesn't match the current one.'']
      else errs)"

definition verifyId :: "Crypto \<Rightarrow> block \<Rightarrow> string list \<Rightarrow> string list" where
  "verifyId C block errs =
     (let id = getId C block
      in if blk_id block \<noteq> id
         then errs @ [''Block id is corrupted expected: '' @ id @ '' actual: '' @ blk_id block]
         else errs)"

text \<open>
  \<open>verifyPayload\<close> keeps the transactions it has seen in a plain object, by id: a
  lookup also finds what every object inherits, so an id that names such a property
  counts as seen from the start.  (An assignment under \<^verbatim>\<open>__proto__\<close> would replace
  what is inherited; that one effect is left out.)
\<close>

definition objectPrototypeKeys :: "string list" where
  "objectPrototypeKeys =
     [''constructor'', ''__defineGetter__'', ''__defineSetter__'', ''hasOwnProperty'',
      ''__lookupGetter__'', ''__lookupSetter__'', ''isPrototypeOf'', ''propertyIsEnumerable'',
      ''toString'', ''valueOf'', ''__proto__'', ''toLocaleString'']"

text \<open>
  The loop of \<open>verifyPayload\<close>: the errors, the two totals, the bytes fed to the hash so
  far and the ids already seen.  The totals are sums of JavaScript numbers, exact as
  long as they stay below \<open>2^53\<close>: they are integers here.
\<close>

fun verifyPayload_loop ::
  "('w, 'a) TransactionDispatcher \<Rightarrow> transaction list \<Rightarrow>
     string list \<times> int \<times> int \<times> byte list \<times> string list \<Rightarrow>
     string list \<times> int \<times> int \<times> byte list \<times> string list" where
  "verifyPayload_loop D [] acc = acc"
| "verifyPayload_loop D (trs # rest) (errs, totalAmount, totalFee, hashed, applied) =
     (let bytes = trsGetBytes D trs;
          errs1 = (case bytes of Inl e \<Rightarrow> errs @ [e] | Inr b \<Rightarrow> errs);
          errs2 = (if trs_id trs \<in> set applied \<or> trs_id trs \<in> set objectPrototypeKeys
                   then errs1 @ [''Encountered duplicate transaction: '' @ trs_id trs]
                   else errs1);
          hashed1 = (case bytes of Inl e \<Rightarrow> hashed | Inr b \<Rightarrow> hashed @ b);
          totalAmount1 = (if trs_type trs = SEND
                          then totalAmount + asset_amount (trs_asset trs)
                          else totalAmount)
      in verifyPayload_loop D rest
           (errs2, totalAmount1, totalFee + trs_fee trs, hashed1, trs_id trs # applied))"

definition verifyPayload ::
  "('w, 'a) env \<Rightarrow> block \<Rightarrow> string list \<Rightarrow> string list" where
  "verifyPayload E block errs =
     (let errs1 = (if int (length (transactions block)) \<noteq> transactionCount block
                   then errs @ [''Included transactions do not match block transactions count'']
                   else errs);
          errs2 = (if int (length (transactions block)) > MAX_TRANSACTIONS_PER_BLOCK (NodeCfg E)
                   then errs1 @ [''Number of transactions exceeds maximum per block'']
                   else errs1)
      in case verifyPayload_loop (Dispatcher E) (transactions block) (errs2, 0, 0, [], []) of
           (errs3, totalAmount, totalFee, hashed, applied) \<Rightarrow>
             (let hex = to_hex (sha256 (CryptoLib E) hashed);
                  errs4 = (if hex \<noteq> payloadHash block
                           then errs3 @ [''Invalid payload hash''] else errs3);
                  errs5 = (if totalAmount \<noteq> amount block
                           then errs4 @ [''Invalid total amount''] else errs4)
              in if totalFee \<noteq> fee block
                 then errs5 @ [''Invalid total fee. Expected: '' @ show_int totalFee
                                 @ '', actual: '' @ show_int (fee block)]
                 else errs5))"

definition verifyBlockSlotNumber ::
  "'w Rounds \<Rightarrow> 'w \<Rightarrow> block \<Rightarrow> block option \<Rightarrow> string list \<Rightarrow> exn + string list" where
  "verifyBlockSlotNumber R w receivedBlock lastBlock errs =
     (case lastBlock of
        None \<Rightarrow> Inl TypeError
      | Some lb \<Rightarrow>
          (let receivedBlockSlotNumber = getSlotNumber R (createdAt receivedBlock);
               lastBlockSlotNumber = getSlotNumber R (createdAt lb);
               currentSlot = currentSlotNumber R w;
               activeDelegatesCount = getActiveDelegatesCount R w
           in if receivedBlockSlotNumber > currentSlot + activeDelegatesCount - 1
                   \<or> receivedBlockSlotNumber \<le> lastBlockSlotNumber
              then Inr (errs @ [''Invalid block timestamp''])
              else Inr errs))"

definition verifyBlock ::
  "('w, 'a) env \<Rightarrow> 'w \<Rightarrow> block \<Rightarrow> bool \<Rightarrow> exn + unit ResponseEntity" where
  "verifyBlock E w block verify =
     (let lastBlock = getLast (Storage E) w;
          errs1 = (if verify then verifySignature (CryptoLib E) block [] else []);
          errs2 = verifyPreviousBlock block errs1;
          errs3 = verifyVersion (NodeCfg E) block errs2;
          errs4 = (if verify then verifyPayload E block (verifyId (CryptoLib E) block errs3)
                   else errs3)
      in case verifyBlockSlotNumber (RoundSvc E) w block lastBlock errs4 of
           Inl e \<Rightarrow> Inl e
         | Inr errs5 \<Rightarrow> Inr (response_errors (rev errs5)))"

definition verifyBlockSlot :: "'w Rounds \<Rightarrow> 'w \<Rightarrow> block \<Rightarrow> exn + unit ResponseEntity" where
  "verifyBlockSlot R w block =
     (let blockSlot = getSlotNumber R (createdAt block)
      in if height block = 1 \<or> \<not> isValidateBlockSlot R blockSlot then Inr response_ok
         else
           (case getCurrentRound R w of
              None \<Rightarrow> Inl TypeError
            | Some currentRound \<Rightarrow>
                (case slots currentRound (generatorPublicKey block) of
                   None \<Rightarrow>
                     Inr (response_errors
                            [''GeneratorPublicKey does not exist in current round''])
                 | Some generatorSlot \<Rightarrow>
                     if blockSlot \<noteq> slot generatorSlot
                     then Inr (response_errors
                                 [''blockSlot: '' @ show_int blockSlot
                                    @ '' not equal with generatorSlot: ''
                                    @ show_int (slot generatorSlot)])
                     else Inr response_ok)))"

subsection \<open>checkTransactionsAndApplyUnconfirmed\<close>

text \<open>
  The sender of a transaction of the block: the account at its address, created when
  there is none, and given the transaction's public key when it has none.
\<close>

definition resolveSender ::
  "('w, 'a) AccountRepository \<Rightarrow> transaction \<Rightarrow> 'w \<Rightarrow> 'a \<times> 'w" where
  "resolveSender A trs w =
     (case getByAddress A w (senderAddress trs) of
        None \<Rightarrow> add A (senderPublicKey trs) (senderAddress trs) w
      | Some sender \<Rightarrow>
          if accountPublicKey A w sender = None \<or> accountPublicKey A w sender = Some []
          then (sender, setAccountPublicKey A sender (senderPublicKey trs) w)
          else (sender, w))"

text \<open>
  One turn of the first loop, at index \<open>i\<close>: \<open>Inl\<close> when the loop is left by
  \<^verbatim>\<open>break\<close> (with the errors pushed), \<open>Inr\<close> when it goes on.
\<close>

definition check_step ::
  "('w, 'a) AccountRepository \<Rightarrow> ('w, 'a) TransactionDispatcher \<Rightarrow> bool \<Rightarrow>
     transaction list \<Rightarrow> nat \<Rightarrow> 'w sys \<Rightarrow>
     (string list \<times> 'w sys) + (transaction list \<times> 'w sys)" where
  "check_step A D verify txs i s =
     (let trs = txs ! i;
          resolved = resolveSender A trs (ext s);
          sender = Some (fst resolved);
          w1 = snd resolved
      in if verify then
           (let verifyResult = verifyUnconfirmed D trs sender w1
            in if \<not> success verifyResult
               then Inl (errors verifyResult, s\<lparr> ext := w1 \<rparr>)
               else Inr (txs, logCalls [ApplyUnconfirmed trs]
                                (s\<lparr> ext := applyUnconfirmed D trs sender w1 \<rparr>)))
         else
           (let trs1 = (if trs_type trs = VOTE
                        then trs\<lparr> trs_fee := calculateFee D trs sender w1 \<rparr>
                        else trs)
            in Inr (txs[i := trs1],
                    logCalls [ApplyUnconfirmed trs1]
                      (s\<lparr> ext := applyUnconfirmed D trs1 sender w1 \<rparr>))))"

lemma check_step_length:
  "check_step A D verify txs i s = Inr (txs1, s1) \<Longrightarrow> length txs1 = length txs"
  by (auto simp: check_step_def Let_def split: if_splits)

function check_loop ::
  "('w, 'a) AccountRepository \<Rightarrow> ('w, 'a) TransactionDispatcher \<Rightarrow> bool \<Rightarrow>
     transaction list \<Rightarrow> nat \<Rightarrow> 'w sys \<Rightarrow>
     int \<times> string list \<times> transaction list \<times> 'w sys" where
  "check_loop A D verify txs i s =
     (if i < length txs then
        (case check_step A D verify txs i s of
           Inl (errs, s1) \<Rightarrow> (int i - 1, errs, txs, s1)
         | Inr (txs1, s1) \<Rightarrow> check_loop A D verify txs1 (i + 1) s1)
      else (int i, [], txs, s))"
  by pat_completeness auto
termination
  by (relation "measure (\<lambda>(A, D, verify, txs, i, s). length txs - i)")
     (auto dest: check_step_length)

declare check_loop.simps [simp del]

function undo_loop ::
  "('w, 'a) AccountRepository \<Rightarrow> ('w, 'a) TransactionDispatcher \<Rightarrow>
     transaction list \<Rightarrow> int \<Rightarrow> 'w sys \<Rightarrow> 'w sys" where
  "undo_loop A D txs i s =
     (if i \<ge> 0 then
        (let trs = txs ! nat i;
             sender = getByPublicKey A (ext s) (senderPublicKey trs)
         in undo_loop A D txs (i - 1)
              (logCalls [UndoUnconfirmed trs]
                 (s\<lparr> ext := undoUnconfirmed D trs sender (ext s) \<rparr>)))
      else s)"
  by pat_completeness auto
termination
  by (relation "measure (\<lambda>(A, D, txs, i, s). nat (i + 1))") auto

declare undo_loop.simps [simp del]

definition checkTransactionsAndApplyUnconfirmed ::
  "('w, 'a) AccountRepository \<Rightarrow> ('w, 'a) TransactionDispatcher \<Rightarrow>
     block \<Rightarrow> bool \<Rightarrow> 'w sys \<Rightarrow> unit ResponseEntity \<times> block \<times> 'w sys" where
  "checkTransactionsAndApplyUnconfirmed A D block verify s =
     (case check_loop A D verify (transactions block) 0 s of
        (i, errs, txs, s1) \<Rightarrow>
          (response_errors errs,
           block\<lparr> transactions := txs \<rparr>,
           if length errs \<noteq> 0 then undo_loop A D txs i s1 else s1))"

text \<open>
  To speak about a run of \<open>checkTransactionsAndApplyUnconfirmed\<close> with \<open>verify\<close> set:
  \<open>appliedUnconfirmed\<close> is the collaborators' state after the loop has resolved the sender
  of, and applied, each transaction of a list; \<open>verifyAt\<close> is the result of
  \<open>verifyUnconfirmed\<close> for the transaction at position \<open>i\<close>, taken in the state the loop
  has reached there; \<open>rolledBack\<close> is the state after \<open>undoUnconfirmed\<close> was called on each
  transaction of a list, with the sender found by public key.
\<close>

fun appliedUnconfirmed ::
  "('w, 'a) AccountRepository \<Rightarrow> ('w, 'a) TransactionDispatcher \<Rightarrow>
     transaction list \<Rightarrow> 'w \<Rightarrow> 'w" where
  "appliedUnconfirmed A D [] w = w"
| "appliedUnconfirmed A D (trs # rest) w =
     appliedUnconfirmed A D rest
       (applyUnconfirmed D trs (Some (fst (resolveSender A trs w)))
          (snd (resolveSender A trs w)))"

definition verifyAt ::
  "('w, 'a) AccountRepository \<Rightarrow> ('w, 'a) TransactionDispatcher \<Rightarrow>
     transaction list \<Rightarrow> nat \<Rightarrow> 'w \<Rightarrow> unit ResponseEntity" where
  "verifyAt A D txs i w =
     (let resolved = resolveSender A (txs ! i) (appliedUnconfirmed A D (take i txs) w)
      in verifyUnconfirmed D (txs ! i) (Some (fst resolved)) (snd resolved))"

fun rolledBack ::
  "('w, 'a) AccountRepository \<Rightarrow> ('w, 'a) TransactionDispatcher \<Rightarrow>
     transaction list \<Rightarrow> 'w \<Rightarrow> 'w" where
  "rolledBack A D [] w = w"
| "rolledBack A D (trs # rest) w =
     rolledBack A D rest
       (undoUnconfirmed D trs (getByPublicKey A w (senderPublicKey trs)) w)"

subsection \<open>addPayloadHash and applyBlock\<close>

fun payload_loop ::
  "('w, 'a) TransactionDispatcher \<Rightarrow> transaction list \<Rightarrow> block \<Rightarrow> byte list \<Rightarrow>
     exn option \<times> block \<times> byte list" where
  "payload_loop D [] block hashed = (None, block, hashed)"
| "payload_loop D (trs # rest) block hashed =
     (case trsGetBytes D trs of
        Inl e \<Rightarrow> (Some (Thrown e), block, hashed)
      | Inr bytes \<Rightarrow>
          (let block1 = block\<lparr> fee := fee block + trs_fee trs \<rparr>;
               block2 = (if trs_type trs = SEND
                         then block1\<lparr> amount := amount block1 + asset_amount (trs_asset trs) \<rparr>
                         else block1)
           in payload_loop D rest block2 (hashed @ bytes)))"

definition addPayloadHash ::
  "('w, 'a) env \<Rightarrow> block \<Rightarrow> keypair \<Rightarrow> 'w sys \<Rightarrow>
     (exn + block ResponseEntity) \<times> block \<times> 'w sys" where
  "addPayloadHash E block keyPair s =
     (case payload_loop (Dispatcher E) (transactions block) block [] of
        (Some e, block1, hashed) \<Rightarrow> (Inl e, block1, s)
      | (None, block1, hashed) \<Rightarrow>
          (let block2 = block1\<lparr> payloadHash := to_hex (sha256 (CryptoLib E) hashed) \<rparr>;
               block3 = block2\<lparr> signature := calculateSignature (CryptoLib E) block2 keyPair \<rparr>;
               block4 = block3\<lparr> blk_id := getId (CryptoLib E) block3 \<rparr>;
               block5 = block4\<lparr> transactions :=
                          map (\<lambda>t. t\<lparr> blockId := Some (blk_id block4) \<rparr>) (transactions block4) \<rparr>
           in (Inr \<lparr> errors = [], data = Some block5 \<rparr>, block5,
               logCalls [BlockHistory block5 LC_CREATE] s)))"

fun apply_all ::
  "('w, 'a) AccountRepository \<Rightarrow> ('w, 'a) TransactionDispatcher \<Rightarrow>
     transaction list \<Rightarrow> 'w sys \<Rightarrow> 'w sys" where
  "apply_all A D [] s = s"
| "apply_all A D (trs # rest) s =
     (let sender = getByPublicKey A (ext s) (senderPublicKey trs)
      in apply_all A D rest
           (logCalls [ApplyConfirmed trs] (s\<lparr> ext := applyConfirmed D trs sender (ext s) \<rparr>)))"

definition applyBlock ::
  "('w, 'a) env \<Rightarrow> block \<Rightarrow> bool \<Rightarrow> keypair option \<Rightarrow> 'w sys \<Rightarrow>
     (exn + unit ResponseEntity) \<times> block \<times> 'w sys" where
  "applyBlock E block broadcast keyPair s =
     (case (case keyPair of
              None \<Rightarrow> (Inr \<lparr> errors = [], data = Some block \<rparr>, block, s)
            | Some kp \<Rightarrow> addPayloadHash E block kp s) of
        (Inl e, block1, s1) \<Rightarrow> (Inl e, block1, s1)
      | (Inr addPayloadHashResponse, block1, s1) \<Rightarrow>
          if \<not> success addPayloadHashResponse
          then (Inr (response_errors (errors addPayloadHashResponse @ [''applyBlock''])),
                block1, s1)
          else
            (case batchSave (Storage E) block1 (ext s1) of
               (saveResult, w2) \<Rightarrow>
                 (let s2 = logCalls [BatchSave block1] (s1\<lparr> ext := w2 \<rparr>)
                  in if \<not> success saveResult
                     then (Inr (response_errors (errors saveResult @ [''applyBlock''])),
                           block1, s2)
                     else
                       (let s3 = logCalls [StoragePush block1, BlockHistory block1 LC_APPLY]
                                   (s2\<lparr> ext := storagePush (Storage E) block1 (ext s2) \<rparr>);
                            s4 = apply_all (AccountRepo E) (Dispatcher E)
                                   (transactions block1) s3;
                            s5 = (if broadcast \<and> \<not> synchronization (NodeCfg E) (ext s4)
                                  then logCalls [EmitEvent ''APPLY_BLOCK'' block1,
                                                 SendNewBlock block1] s4
                                  else s4)
                        in if height block1 \<ge> MIN_ROUND_BLOCK_HEIGHT (NodeCfg E)
                           then
                             (case getCurrentRound (RoundSvc E) (ext s5) of
                                None \<Rightarrow> (Inl TypeError, block1, s5)
                              | Some currentRound \<Rightarrow>
                                  (case slots currentRound (generatorPublicKey block1) of
                                     None \<Rightarrow> (Inl TypeError, block1, s5)
                                   | Some generatorSlot \<Rightarrow>
                                       (Inr response_ok, block1,
                                        logCalls [SetForged (generatorPublicKey block1) True]
                                          (s5\<lparr> ext := setForged (RoundSvc E)
                                                    (generatorPublicKey block1) True (ext s5) \<rparr>))))
                           else (Inr response_ok, block1, s5)))))"

subsection \<open>process\<close>

text \<open>
  The recovery of \<open>process\<close> after a failed \<open>applyBlock\<close>, over the reversed
  transactions of the block.
\<close>

fun undo_failed_apply ::
  "('w, 'a) AccountRepository \<Rightarrow> ('w, 'a) TransactionDispatcher \<Rightarrow>
     transaction list \<Rightarrow> 'w sys \<Rightarrow> 'w sys" where
  "undo_failed_apply A D [] s = s"
| "undo_failed_apply A D (trs # rest) s =
     (let sender = getByAddress A (ext s) (senderAddress trs)
      in undo_failed_apply A D rest
           (logCalls [UndoUnconfirmed trs, QueuePush trs,
                      TransactionHistory trs UNDO_BY_FAILED_APPLY]
              (s\<lparr> ext := undoUnconfirmed D trs sender (ext s) \<rparr>)))"

text \<open>
  The first step of \<open>process\<close>, taken when \<open>verify\<close> is set: \<open>None\<close> when both
  verifications pass, otherwise what \<open>process\<close> returns.
\<close>

definition process_verify ::
  "('w, 'a) env \<Rightarrow> block \<Rightarrow> keypair option \<Rightarrow> 'w \<Rightarrow> (exn + unit ResponseEntity) option" where
  "process_verify E block keyPair w =
     (case verifyBlock E w block (keyPair = None) of
        Inl e \<Rightarrow> Some (Inl e)
      | Inr resultVerifyBlock \<Rightarrow>
          if \<not> success resultVerifyBlock
          then Some (Inr (response_errors (errors resultVerifyBlock @ [''process''])))
          else
            (case verifyBlockSlot (RoundSvc E) w block of
               Inl e \<Rightarrow> Some (Inl e)
             | Inr validationResponse \<Rightarrow>
                 if \<not> success validationResponse
                 then Some (Inr (response_errors (errors validationResponse @ [''process''])))
                 else None))"

definition process ::
  "('w, 'a) env \<Rightarrow> block \<Rightarrow> bool \<Rightarrow> keypair option \<Rightarrow> bool \<Rightarrow> 'w sys \<Rightarrow>
     (exn + unit ResponseEntity) \<times> block \<times> 'w sys" where
  "process E block broadcast keyPair verify s =
     (let s0 = logCalls [BlockHistory block LC_PROCESS] s;
          s1 = (if verify then logCalls [BlockHistory block LC_VERIFY] s0 else s0)
      in case (if verify then process_verify E block keyPair (ext s1) else None) of
           Some failed \<Rightarrow> (failed, block, s1)
         | None \<Rightarrow>
             if storageHas (Storage E) (ext s1) (blk_id block)
             then (Inr (response_errors [''Block '' @ blk_id block @ '' already exists'']),
                   block, s1)
             else
               (case checkTransactionsAndApplyUnconfirmed (AccountRepo E) (Dispatcher E)
                       block verify s1 of
                  (resultCheckTransactions, block1, s2) \<Rightarrow>
                    if \<not> success resultCheckTransactions
                    then (Inr (response_errors
                                 (errors resultCheckTransactions @ [''process''])),
                          block1, s2)
                    else
                      (case applyBlock E block1 broadcast keyPair s2 of
                         (Inl e, block2, s3) \<Rightarrow> (Inl e, block2, s3)
                       | (Inr applyBlockResponse, block2, s3) \<Rightarrow>
                           if \<not> success applyBlockResponse
                           then (Inr (response_errors
                                        (errors applyBlockResponse @ [''process''])),
                                 block2,
                                 undo_failed_apply (AccountRepo E) (Dispatcher E)
                                   (rev (transactions block2)) s3)
                           else (Inr response_ok, block2, s3))))"

text \<open>
  To speak about that recovery: \<open>undoneByAddress\<close> is the collaborators' state after
  \<open>undoUnconfirmed\<close> was called on each transaction of a list, with the sender found by
  address; \<open>checkedPrefix\<close> is the state in which
  \<open>checkTransactionsAndApplyUnconfirmed\<close> leaves the first \<open>k\<close> transactions of a
  block.
\<close>

fun undoneByAddress ::
  "('w, 'a) AccountRepository \<Rightarrow> ('w, 'a) TransactionDispatcher \<Rightarrow>
     transaction list \<Rightarrow> 'w \<Rightarrow> 'w" where
  "undoneByAddress A D [] w = w"
| "undoneByAddress A D (trs # rest) w =
     undoneByAddress A D rest
       (undoUnconfirmed D trs (getByAddress A w (senderAddress trs)) w)"

definition checkedPrefix ::
  "('w, 'a) AccountRepository \<Rightarrow> ('w, 'a) TransactionDispatcher \<Rightarrow>
     block \<Rightarrow> bool \<Rightarrow> nat \<Rightarrow> 'w sys \<Rightarrow> 'w" where
  "checkedPrefix A D block verify k s =
     ext (snd (snd (checkTransactionsAndApplyUnconfirmed A D
                      (block\<lparr> transactions := take k (transactions block) \<rparr>) verify s)))"

subsection \<open>validateReceivedBlock\<close>










subsection \<open>deleteLastBlock\<close>

fun undo_all ::
  "('w, 'a) AccountRepository \<Rightarrow> ('w, 'a) TransactionDispatcher \<Rightarrow>
     transaction list \<Rightarrow> 'w sys \<Rightarrow> 'w sys" where
  "undo_all A D [] s = s"
| "undo_all A D (trs # rest) s =
     (let sender = getByAddress A (ext s) (senderAddress trs);
          s1 = logCalls [UndoConfirmed trs] (s\<lparr> ext := undoConfirmed D trs sender (ext s) \<rparr>);
          s2 = logCalls [UndoUnconfirmed trs]
                 (s1\<lparr> ext := undoUnconfirmed D trs sender (ext s1) \<rparr>)
      in undo_all A D rest s2)"

definition deleteLastBlock ::
  "('w, 'a) env \<Rightarrow> 'w sys \<Rightarrow> (exn + block ResponseEntity) \<times> 'w sys" where
  "deleteLastBlock E s =
     (case getLast (Storage E) (ext s) of
        None \<Rightarrow> (Inl TypeError, s)
      | Some lastBlock \<Rightarrow>
          if height lastBlock = 1
          then (Inr \<lparr> errors = [''Cannot delete genesis block''], data = None \<rparr>, s)
          else
            (case deleteById (Storage E) (blk_id lastBlock) (ext s) of
               (deleteResult, w1) \<Rightarrow>
                 (let s1 = logCalls [DeleteById (blk_id lastBlock)] (s\<lparr> ext := w1 \<rparr>)
                  in if \<not> success deleteResult
                     then (Inr \<lparr> errors = errors deleteResult @ [''deleteLastBlock''],
                                 data = None \<rparr>, s1)
                     else
                       (let n = getSlotNumber (RoundSvc E) (createdAt lastBlock);
                            s2 = logCalls [RestoreToSlot n]
                                   (s1\<lparr> ext := restoreToSlot (RoundSvc E) n (ext s1) \<rparr>)
                        in case getCurrentRound (RoundSvc E) (ext s2) of
                             None \<Rightarrow> (Inl TypeError, s2)
                           | Some currentRound \<Rightarrow>
                               (case slots currentRound (generatorPublicKey lastBlock) of
                                  None \<Rightarrow> (Inl TypeError, s2)
                                | Some generatorSlot \<Rightarrow>
                                    (let s3 = logCalls
                                                [SetForged (generatorPublicKey lastBlock) False]
                                                (s2\<lparr> ext := setForged (RoundSvc E)
                                                     (generatorPublicKey lastBlock) False
                                                     (ext s2) \<rparr>)
                                     in case popLast (Storage E) (ext s3) of
                                          (newLastBlock, w4) \<Rightarrow>
                                            (let s4 = logCalls
                                                        [StoragePopLast,
                                                         BlockHistory lastBlock LC_UNDO]
                                                        (s3\<lparr> ext := w4 \<rparr>);
                                                 s5 = undo_all (AccountRepo E) (Dispatcher E)
                                                        (rev (transactions lastBlock)) s4;
                                                 s6 = logCalls
                                                        [EmitEvent ''UNDO_BLOCK'' lastBlock] s5
                                             in (Inr \<lparr> errors = [], data = newLastBlock \<rparr>,
                                                 s6))))))))"

section \<open>A small instance of the collaborators\<close>

text \<open>
  A ledger that is enough to run the two services on concrete inputs: accounts with a
  public key and an unconfirmed balance, kept by address; a dispatcher that charges the
  fee (and moves the amount of a transfer) on the unconfirmed balance; a block storage
  that is a list; a durable store that fails when \<open>dbDown\<close> is set.  An account is
  referred to by its address.
\<close>

record ledger =
  accounts :: "(string \<times> string option \<times> int) list"
  blocks :: "block list"
  currentRound :: "round option"
  now :: int
  dbDown :: bool

definition credit :: "string \<Rightarrow> int \<Rightarrow> ledger \<Rightarrow> ledger" where
  "credit address n w =
     w\<lparr> accounts := AList.map_entry address (\<lambda>(pk, b). (pk, b + n)) (accounts w) \<rparr>"

definition ledgerAccounts :: "(ledger, string) AccountRepository" where
  "ledgerAccounts =
     \<lparr> getByAddress = (\<lambda>w address.
          if map_of (accounts w) address = None then None else Some address),
       getByPublicKey = (\<lambda>w pk.
          map_option fst (find (\<lambda>(address, pk1, b). pk1 = Some pk) (accounts w))),
       add = (\<lambda>pk address w.
          (address, w\<lparr> accounts := AList.update address (Some pk, 0) (accounts w) \<rparr>)),
       accountPublicKey = (\<lambda>w address.
          case map_of (accounts w) address of None \<Rightarrow> None | Some (pk, b) \<Rightarrow> pk),
       setAccountPublicKey = (\<lambda>address pk w.
          w\<lparr> accounts := AList.map_entry address (\<lambda>(pk1, b). (Some pk, b)) (accounts w) \<rparr>) \<rparr>"

definition cost :: "transaction \<Rightarrow> int" where
  "cost trs =
     trs_fee trs + (if trs_type trs = SEND then asset_amount (trs_asset trs) else 0)"

definition ledgerApplyUnconfirmed :: "transaction \<Rightarrow> string option \<Rightarrow> ledger \<Rightarrow> ledger" where
  "ledgerApplyUnconfirmed trs sender w =
     (case sender of
        None \<Rightarrow> w
      | Some address \<Rightarrow>
          (let w1 = credit address (- cost trs) w
           in if trs_type trs = SEND
              then credit (recipientAddress (trs_asset trs)) (asset_amount (trs_asset trs)) w1
              else w1))"

definition ledgerUndoUnconfirmed :: "transaction \<Rightarrow> string option \<Rightarrow> ledger \<Rightarrow> ledger" where
  "ledgerUndoUnconfirmed trs sender w =
     (case sender of
        None \<Rightarrow> w
      | Some address \<Rightarrow>
          (let w1 = (if trs_type trs = SEND
                     then credit (recipientAddress (trs_asset trs))
                            (- asset_amount (trs_asset trs)) w
                     else w)
           in credit address (cost trs) w1))"

definition ledgerDispatcher :: "(ledger, string) TransactionDispatcher" where
  "ledgerDispatcher =
     \<lparr> verifyUnconfirmed = (\<lambda>trs sender w.
          case sender of
            None \<Rightarrow> response_errors [''Missing sender'']
          | Some address \<Rightarrow>
              (case map_of (accounts w) address of
                 None \<Rightarrow> response_errors [''Missing sender'']
               | Some (pk, b) \<Rightarrow>
                   if b < cost trs then response_errors [''Not enough balance'']
                   else response_ok)),
       calculateFee = (\<lambda>trs sender w. trs_fee trs),
       applyUnconfirmed = ledgerApplyUnconfirmed,
       undoUnconfirmed = ledgerUndoUnconfirmed,
       applyConfirmed = (\<lambda>trs sender w. w),
       undoConfirmed = (\<lambda>trs sender w. w),
       trsGetBytes = (\<lambda>trs. Inr (from_hex (trs_id trs))) \<rparr>"

definition ledgerCrypto :: Crypto where
  "ledgerCrypto =
     \<lparr> sha256 = (\<lambda>bs. take 32 (bs @ replicate 32 0)),
       crypto_sign_verify_detached = (\<lambda>sig hash pk. Inr (sig = take 64 (hash @ pk @ replicate 64 0))),
       crypto_sign_detached = (\<lambda>hash sk. take 64 (hash @ sk @ replicate 64 0)) \<rparr>"

definition ledgerStorage :: "ledger BlockStorage" where
  "ledgerStorage =
     \<lparr> getLast = (\<lambda>w. if blocks w = [] then None else Some (last (blocks w))),
       storageHas = (\<lambda>w id. id \<in> blk_id ` set (blocks w)),
       storagePush = (\<lambda>b w. w\<lparr> blocks := blocks w @ [b] \<rparr>),
       popLast = (\<lambda>w.
          (if butlast (blocks w) = [] then None else Some (last (butlast (blocks w))),
           w\<lparr> blocks := butlast (blocks w) \<rparr>)),
       batchSave = (\<lambda>b w.
          (if dbDown w then response_errors [''Connection terminated''] else response_ok, w)),
       deleteById = (\<lambda>id w.
          (if dbDown w then response_errors [''Connection terminated''] else response_ok, w)) \<rparr>"

definition ledgerRounds :: "ledger Rounds" where
  "ledgerRounds =
     \<lparr> getSlotNumber = (\<lambda>t. t div 10),
       currentSlotNumber = (\<lambda>w. now w div 10),
       getActiveDelegatesCount = (\<lambda>w. 3),
       isValidateBlockSlot = (\<lambda>n. True),
       getCurrentRound = currentRound,
       setForged = (\<lambda>pk b w.
          w\<lparr> currentRound :=
               map_option (\<lambda>r. r\<lparr> slots := (slots r)
                  (pk := map_option (\<lambda>e. e\<lparr> isForged := b \<rparr>) (slots r pk)) \<rparr>)
                 (currentRound w) \<rparr>),
       restoreToSlot = (\<lambda>n w. w) \<rparr>"

definition ledgerNode :: "ledger Node" where
  "ledgerNode =
     \<lparr> getMyConsensus = (\<lambda>w. False),
       synchronization = (\<lambda>w. False),
       currentBlockVersion = 1,
       MAX_TRANSACTIONS_PER_BLOCK = 250,
       MIN_ROUND_BLOCK_HEIGHT = 1,
       isNext = (\<lambda>lastBlock receivedBlock. height receivedBlock = height lastBlock + 1),
       isBlockCanBeProcessed = (\<lambda>lastBlock receivedBlock. True) \<rparr>"

definition ledgerEnv :: "(ledger, string) env" where
  "ledgerEnv =
     \<lparr> AccountRepo = ledgerAccounts, Dispatcher = ledgerDispatcher, CryptoLib = ledgerCrypto,
       Storage = ledgerStorage, RoundSvc = ledgerRounds, NodeCfg = ledgerNode \<rparr>"

definition typeNumbers :: "TransactionType \<Rightarrow> int" where
  "typeNumbers t =
     (case t of
        REGISTER \<Rightarrow> 0 | SEND \<Rightarrow> 10 | SIGNATURE \<Rightarrow> 20 | DELEGATE \<Rightarrow> 30 | STAKE \<Rightarrow> 40
      | VOTE \<Rightarrow> 60 | OTHER_TYPE n \<Rightarrow> 70 + int n)"

definition noAsset :: asset where
  "noAsset = \<lparr> recipientAddress = [], asset_amount = 0, reward = 0, unstake = 0, sponsors = [] \<rparr>"

definition mkTrs ::
  "nat \<Rightarrow> string \<Rightarrow> TransactionType \<Rightarrow> string \<Rightarrow> string \<Rightarrow> int \<Rightarrow> int \<Rightarrow> asset \<Rightarrow>
     transaction" where
  "mkTrs r i t pk address f c a =
     \<lparr> obj_ref = r, trs_id = i, trs_type = t, senderPublicKey = pk, senderAddress = address, trs_fee = f,
       trs_createdAt = c, trs_signature = [], secondSignature = None, trs_asset = a,
       blockId = None, status = CREATED \<rparr>"

definition sendTo :: "string \<Rightarrow> int \<Rightarrow> asset" where
  "sendTo address n = noAsset\<lparr> recipientAddress := address, asset_amount := n \<rparr>"

text \<open>
  Two accounts, \<open>alice\<close> with an unconfirmed balance of 100 and \<open>bob\<close> with 5, and three
  transfers: 30 and 40 from alice to bob, each with a fee of 1, and 500 from bob to
  alice, which bob cannot pay.
\<close>

definition tx1 :: transaction where
  "tx1 = mkTrs 1 ''a1'' SEND ''pkA'' ''alice'' 1 7 (sendTo ''bob'' 30)"

definition tx2 :: transaction where
  "tx2 = mkTrs 2 ''b2'' SEND ''pkA'' ''alice'' 1 8 (sendTo ''bob'' 40)"

definition tx3 :: transaction where
  "tx3 = mkTrs 3 ''c3'' SEND ''pkB'' ''bob'' 1 9 (sendTo ''alice'' 500)"

definition genesis :: block where
  "genesis =
     \<lparr> blk_id = ''00'', version = 1, height = 1, previousBlockId = None, createdAt = 0,
       generatorPublicKey = ''aa'', signature = [], payloadHash = [], transactionCount = 0,
       amount = 0, fee = 0, transactions = [] \<rparr>"

definition world0 :: ledger where
  "world0 =
     \<lparr> accounts = [(''alice'', Some ''pkA'', 100), (''bob'', Some ''pkB'', 5)],
       blocks = [genesis],
       currentRound = Some \<lparr> slots = [''aa'' \<mapsto> \<lparr> slot = 2, isForged = False \<rparr>],
                              startHeight = 1 \<rparr>,
       now = 25,
       dbDown = False \<rparr>"

definition sys0 :: "ledger sys" where
  "sys0 = \<lparr> ext = world0, calls = [] \<rparr>"

definition emptyPool :: pool_state where
  "emptyPool = \<lparr> pool = [], poolByRecipient = Map.empty, poolBySender = Map.empty \<rparr>"

text \<open>
  A block of height 2 with well-formed hexadecimal fields, to look at its bytes.
\<close>

definition sampleBlock :: block where
  "sampleBlock =
     \<lparr> blk_id = ''b1'', version = 1, height = 2, previousBlockId = Some ''00ff'',
       createdAt = 10, generatorPublicKey = concat (replicate 32 ''cd''),
       signature = concat (replicate 64 ''ef''), payloadHash = concat (replicate 32 ''ab''),
       transactionCount = 2, amount = 300, fee = 5, transactions = [] \<rparr>"


text \<open>
  The pool and the system after \<open>tx1\<close> was pushed into the empty pool.
\<close>

definition pushedOnce :: "transaction \<times> pool_state \<times> ledger sys" where
  "pushedOnce = push ledgerAccounts ledgerDispatcher tx1 None True emptyPool sys0"



definition threeTransfers :: block where
  "threeTransfers = sampleBlock\<lparr> transactionCount := 3, amount := 570, fee := 3,
                          transactions := [tx1, tx2, tx3] \<rparr>"

definition twoTransfers :: block where
  "twoTransfers = sampleBlock\<lparr> transactionCount := 2, amount := 70, fee := 2,
                          transactions := [tx1, tx2] \<rparr>"

text \<open>
  The system with the durable store down.
\<close>

definition sysDown :: "ledger sys" where
  "sysDown = \<lparr> ext = world0\<lparr> dbDown := True \<rparr>, calls = [] \<rparr>"

section \<open>Properties of the pool\<close>

lemmas ledger_defs =
  ledgerAccounts_def ledgerDispatcher_def ledgerApplyUnconfirmed_def ledgerUndoUnconfirmed_def
  ledgerEnv_def ledgerStorage_def ledgerRounds_def ledgerNode_def ledgerCrypto_def
  credit_def cost_def sys0_def world0_def emptyPool_def tx1_def tx2_def tx3_def mkTrs_def
  sendTo_def noAsset_def genesis_def

subsection \<open>push on a transaction that is already in the pool\<close>

text \<open>
  C10.  Pushing a transaction whose id is already a key of the pool map returns at once:
  the three maps, the collaborators' state (so every account's \<open>u_balance\<close>) and the
  call log (no second \<open>applyUnconfirmed\<close>, no broadcast) are what they were, and the
  transaction object is not written to.
\<close>

theorem push_duplicate_noop:
  "has p trs \<Longrightarrow> push A D trs sender broadcast p s = (trs, p, s)"
  by (simp add: push_def)

text \<open>
  The witness pushes \<open>tx1\<close> into the empty pool and then pushes the same object again.
\<close>

theorem push_duplicate_noop_witness:
  "has (fst (snd pushedOnce)) (fst pushedOnce)
   \<and> push ledgerAccounts ledgerDispatcher (fst pushedOnce) None True
         (fst (snd pushedOnce)) (snd (snd pushedOnce))
       = (fst pushedOnce, fst (snd pushedOnce), snd (snd pushedOnce))"
proof -
  have once: "has (fst (snd pushedOnce)) (fst pushedOnce)"
    by (simp add: pushedOnce_def push_def has_def emptyPool_def tx1_def mkTrs_def Let_def
        addOneToPoolByRecipient_def)
  show ?thesis
    using once push_duplicate_noop [OF once] by blast
qed

subsection \<open>push followed by remove\<close>

lemma recipient_addOne:
  "getByRecipientAddress (addOneToPoolByRecipient a t p)
   = (getByRecipientAddress p)(a := getByRecipientAddress p a @ [t])"
  by (auto simp: fun_eq_iff getByRecipientAddress_def addOneToPoolByRecipient_def
      split: option.splits)

lemma recipient_removeOne:
  "getByRecipientAddress (removeOneFromPoolByRecipient a t p)
   = (getByRecipientAddress p)(a := remove1 t (getByRecipientAddress p a))"
  by (auto simp: fun_eq_iff getByRecipientAddress_def removeOneFromPoolByRecipient_def
      remove1_idem split: option.splits)

lemma other_addOne:
  "pool (addOneToPoolByRecipient a t p) = pool p"
  "poolBySender (addOneToPoolByRecipient a t p) = poolBySender p"
  by (simp_all add: addOneToPoolByRecipient_def)

lemma other_removeOne:
  "pool (removeOneFromPoolByRecipient a t p) = pool p"
  "poolBySender (removeOneFromPoolByRecipient a t p) = poolBySender p"
  by (simp_all add: removeOneFromPoolByRecipient_def split: option.splits)

lemma fold_addOne:
  "pool (fold (\<lambda>a. addOneToPoolByRecipient a t) ks p) = pool p"
  "poolBySender (fold (\<lambda>a. addOneToPoolByRecipient a t) ks p) = poolBySender p"
  "getByRecipientAddress (fold (\<lambda>a. addOneToPoolByRecipient a t) ks p) x
   = getByRecipientAddress p x @ replicate (count_list ks x) t"
  by (induction ks arbitrary: p) (simp_all add: other_addOne recipient_addOne replicate_app_Cons_same)

lemma fold_removeOne:
  "pool (fold (\<lambda>a. removeOneFromPoolByRecipient a t) ks p) = pool p"
  "poolBySender (fold (\<lambda>a. removeOneFromPoolByRecipient a t) ks p) = poolBySender p"
  "getByRecipientAddress (fold (\<lambda>a. removeOneFromPoolByRecipient a t) ks p) x
   = (remove1 t ^^ count_list ks x) (getByRecipientAddress p x)"
  by (induction ks arbitrary: p)
     (simp_all add: other_removeOne recipient_removeOne funpow_swap1)

lemma remove1_funpow_replicate:
  "t \<notin> set l \<Longrightarrow> (remove1 t ^^ n) (l @ replicate n t) = l"
proof (induction n)
  case 0
  then show ?case by simp
next
  case (Suc n)
  have "remove1 t (l @ replicate (Suc n) t) = l @ replicate n t"
    using Suc.prems by (simp add: remove1_append)
  then show ?case
    using Suc by (simp add: funpow_swap1)
qed

lemma remove1_funpow_idem:
  "t \<notin> set l \<Longrightarrow> (remove1 t ^^ n) l = l"
  by (induction n) (simp_all add: remove1_idem)

lemma delete_update_fresh:
  "map_of al k = None \<Longrightarrow> AList.delete k (AList.update k v al) = al"
  by (induction al) (auto simp: AList.delete_eq split: if_splits)


lemma recipient_frame:
  "getByRecipientAddress (p\<lparr> pool := a \<rparr>) = getByRecipientAddress p"
  "getByRecipientAddress (p\<lparr> poolBySender := b \<rparr>) = getByRecipientAddress p"
  by (simp_all add: getByRecipientAddress_def fun_eq_iff)

lemma push_result:
  assumes "\<not> has p trs"
  shows "\<exists>p1 s1. push A D trs sender broadcast p s
            = (trs\<lparr> status := UNCONFIRM_APPLIED \<rparr>, p1, s1)
          \<and> pool p1 = AList.update (trs_id trs) (trs\<lparr> status := UNCONFIRM_APPLIED \<rparr>) (pool p)
          \<and> poolBySender p1 = (poolBySender p)
               (senderAddress trs \<mapsto> getBySenderAddress p (senderAddress trs)
                                          @ [trs\<lparr> status := UNCONFIRM_APPLIED \<rparr>])
          \<and> (\<forall>x. getByRecipientAddress p1 x = getByRecipientAddress p x
                 @ replicate
                     (count_list
                        (if trs_type trs = SEND then [recipientAddress (trs_asset trs)]
                         else if (trs_type trs = VOTE
                                   \<and> \<not> (reward (trs_asset trs) = 0 \<and> unstake (trs_asset trs) = 0))
                                 \<or> trs_type trs = STAKE
                         then map fst (sponsors (trs_asset trs)) else []) x)
                     (trs\<lparr> status := UNCONFIRM_APPLIED \<rparr>))
          \<and> ext s1 = applyUnconfirmed D (trs\<lparr> status := PUT_IN_POOL \<rparr>)
                        (case sender of
                           None \<Rightarrow> getByAddress A (ext s) (senderAddress trs)
                         | Some a \<Rightarrow> Some a) (ext s)"
  using assms
  by (simp add: push_def Let_def fold_addOne other_addOne recipient_addOne recipient_frame
      getBySenderAddress_def logCalls_def)

lemma remove_result:
  assumes "has p trs"
  shows "\<exists>p2 s2. remove A D trs p s = (True, p2, s2)
          \<and> pool p2 = AList.delete (trs_id trs) (pool p)
          \<and> getBySenderAddress p2 = (getBySenderAddress p)
               (senderAddress trs := remove1 trs (getBySenderAddress p (senderAddress trs)))
          \<and> (\<forall>x. getByRecipientAddress p2 x =
                 (remove1 trs ^^
                    count_list
                      (if trs_type trs = SEND then [recipientAddress (trs_asset trs)]
                       else if trs_type trs = VOTE \<or> trs_type trs = STAKE
                       then map fst (sponsors (trs_asset trs)) else []) x)
                   (getByRecipientAddress p x))
          \<and> ext s2 = undoUnconfirmed D trs (getByPublicKey A (ext s) (senderPublicKey trs)) (ext s)"
  using assms
  by (auto simp: remove_def has_def Let_def fold_removeOne other_removeOne recipient_removeOne
      recipient_frame getBySenderAddress_def logCalls_def fun_eq_iff remove1_idem
      split: option.splits)

text \<open>
  C7.  Let \<open>trs\<close> be a transaction whose id is in none of the three maps of the pool,
  with a sender account that the registry finds both by address (or that the caller
  passes) and by public key, and let the dispatcher's \<open>undoUnconfirmed\<close> reverse its
  \<open>applyUnconfirmed\<close> of \<open>trs\<close> in the current state (the dispatcher and the registry
  are collaborators; this is the contract the spec gives them).  Then \<open>push\<close> followed
  by \<open>remove\<close> of the same object leaves the collaborators' state, hence every account's
  \<open>u_balance\<close>, exactly as it was, and leaves no entry for the transaction in the pool
  map, in \<open>poolBySender\<close> or in \<open>poolByRecipient\<close>: the pool map and the lists of both
  indices are what they were before the push.
\<close>

theorem push_then_remove_restores:
  assumes fresh: "\<not> has p trs"
    and freshS: "\<forall>x. trs_id trs \<notin> trs_id ` set (getBySenderAddress p x)"
    and freshR: "\<forall>x. trs_id trs \<notin> trs_id ` set (getByRecipientAddress p x)"
    and resolvable:
      "(case sender of None \<Rightarrow> getByAddress A (ext s) (senderAddress trs) | Some a \<Rightarrow> Some a)
       = Some account"
    and same:
      "getByPublicKey A (applyUnconfirmed D (trs\<lparr> status := PUT_IN_POOL \<rparr>) (Some account) (ext s))
         (senderPublicKey trs) = Some account"
    and inverse:
      "undoUnconfirmed D (trs\<lparr> status := UNCONFIRM_APPLIED \<rparr>) (Some account)
         (applyUnconfirmed D (trs\<lparr> status := PUT_IN_POOL \<rparr>) (Some account) (ext s)) = ext s"
  shows "\<exists>trs2 p1 s1 p2 s2.
           push A D trs sender broadcast p s = (trs2, p1, s1)
         \<and> remove A D trs2 p1 s1 = (True, p2, s2)
         \<and> ext s2 = ext s
         \<and> pool p2 = pool p
         \<and> getBySenderAddress p2 = getBySenderAddress p
         \<and> getByRecipientAddress p2 = getByRecipientAddress p
         \<and> \<not> has p2 trs2
         \<and> (\<forall>x. trs2 \<notin> set (getBySenderAddress p2 x))
         \<and> (\<forall>x. trs2 \<notin> set (getByRecipientAddress p2 x))"
proof -
  let ?t2 = "trs\<lparr> status := UNCONFIRM_APPLIED \<rparr>"
  obtain p1 s1 where
    push: "push A D trs sender broadcast p s = (?t2, p1, s1)"
    and pool1: "pool p1 = AList.update (trs_id trs) ?t2 (pool p)"
    and snd1: "poolBySender p1 = (poolBySender p)
                 (senderAddress trs \<mapsto> getBySenderAddress p (senderAddress trs) @ [?t2])"
    and rcp1: "\<And>x. getByRecipientAddress p1 x = getByRecipientAddress p x
                 @ replicate
                     (count_list
                        (if trs_type trs = SEND then [recipientAddress (trs_asset trs)]
                         else if (trs_type trs = VOTE
                                   \<and> \<not> (reward (trs_asset trs) = 0 \<and> unstake (trs_asset trs) = 0))
                                 \<or> trs_type trs = STAKE
                         then map fst (sponsors (trs_asset trs)) else []) x) ?t2"
    and ext1: "ext s1 = applyUnconfirmed D (trs\<lparr> status := PUT_IN_POOL \<rparr>) (Some account) (ext s)"
    using push_result [OF fresh, of A D sender broadcast s] resolvable by auto
  have has1: "has p1 ?t2"
    by (simp add: has_def pool1 update_Some_unfold)
  obtain p2 s2 where
    remove: "remove A D ?t2 p1 s1 = (True, p2, s2)"
    and pool2: "pool p2 = AList.delete (trs_id ?t2) (pool p1)"
    and snd2: "getBySenderAddress p2 = (getBySenderAddress p1)
                 (senderAddress ?t2 := remove1 ?t2 (getBySenderAddress p1 (senderAddress ?t2)))"
    and rcp2: "\<And>x. getByRecipientAddress p2 x =
                 (remove1 ?t2 ^^
                    count_list
                      (if trs_type ?t2 = SEND then [recipientAddress (trs_asset ?t2)]
                       else if trs_type ?t2 = VOTE \<or> trs_type ?t2 = STAKE
                       then map fst (sponsors (trs_asset ?t2)) else []) x)
                   (getByRecipientAddress p1 x)"
    and ext2: "ext s2 = undoUnconfirmed D ?t2
                 (getByPublicKey A (ext s1) (senderPublicKey ?t2)) (ext s1)"
    using remove_result [OF has1, of A D s1] by blast
  have notS: "?t2 \<notin> set (getBySenderAddress p x)" for x
  proof
    assume "?t2 \<in> set (getBySenderAddress p x)"
    then have "trs_id ?t2 \<in> trs_id ` set (getBySenderAddress p x)"
      by (rule imageI)
    then show False
      using freshS by simp
  qed
  have notR: "?t2 \<notin> set (getByRecipientAddress p x)" for x
  proof
    assume "?t2 \<in> set (getByRecipientAddress p x)"
    then have "trs_id ?t2 \<in> trs_id ` set (getByRecipientAddress p x)"
      by (rule imageI)
    then show False
      using freshR by simp
  qed
  have world: "ext s2 = ext s"
    using ext2 ext1 same inverse by simp
  have pool: "pool p2 = pool p"
    using fresh by (simp add: pool2 pool1 has_def delete_update_fresh)
  have senders: "getBySenderAddress p2 = getBySenderAddress p"
    using notS [of "senderAddress trs"]
    by (auto simp: snd2 fun_eq_iff getBySenderAddress_def snd1 remove1_append remove1_idem
        split: option.splits)
  have recipients: "getByRecipientAddress p2 x = getByRecipientAddress p x" for x
  proof (cases "trs_type trs = VOTE \<and> reward (trs_asset trs) = 0 \<and> unstake (trs_asset trs) = 0")
    case True
    then show ?thesis
      using notR [of x] by (simp add: rcp2 rcp1 remove1_funpow_idem)
  next
    case False
    then show ?thesis
      using notR [of x] by (auto simp: rcp2 rcp1 remove1_funpow_replicate remove1_funpow_idem)
  qed
  have "\<not> has p2 ?t2"
    using fresh by (simp add: has_def pool)
  with push remove world pool senders recipients notS notR show ?thesis
    by (auto simp: fun_eq_iff)
qed

theorem push_then_remove_restores_witness:
  "\<not> has emptyPool tx1
   \<and> (\<forall>x. trs_id tx1 \<notin> trs_id ` set (getBySenderAddress emptyPool x))
   \<and> (\<forall>x. trs_id tx1 \<notin> trs_id ` set (getByRecipientAddress emptyPool x))
   \<and> getByAddress ledgerAccounts (ext sys0) (senderAddress tx1) = Some ''alice''
   \<and> (\<exists>trs2 p1 s1 p2 s2.
           push ledgerAccounts ledgerDispatcher tx1 None True emptyPool sys0 = (trs2, p1, s1)
         \<and> remove ledgerAccounts ledgerDispatcher trs2 p1 s1 = (True, p2, s2)
         \<and> ext s2 = ext sys0
         \<and> pool p2 = pool emptyPool
         \<and> getBySenderAddress p2 = getBySenderAddress emptyPool
         \<and> getByRecipientAddress p2 = getByRecipientAddress emptyPool
         \<and> \<not> has p2 trs2
         \<and> (\<forall>x. trs2 \<notin> set (getBySenderAddress p2 x))
         \<and> (\<forall>x. trs2 \<notin> set (getByRecipientAddress p2 x)))"
proof -
  have 1: "\<not> has emptyPool tx1"
    by (simp add: has_def emptyPool_def)
  have 2: "\<forall>x. trs_id tx1 \<notin> trs_id ` set (getBySenderAddress emptyPool x)"
    by (simp add: getBySenderAddress_def emptyPool_def)
  have 3: "\<forall>x. trs_id tx1 \<notin> trs_id ` set (getByRecipientAddress emptyPool x)"
    by (simp add: getByRecipientAddress_def emptyPool_def)
  have 4: "(case None of None \<Rightarrow> getByAddress ledgerAccounts (ext sys0) (senderAddress tx1)
            | Some a \<Rightarrow> Some a) = Some ''alice''"
    by (simp add: ledger_defs)
  have 5: "getByPublicKey ledgerAccounts
             (applyUnconfirmed ledgerDispatcher (tx1\<lparr> status := PUT_IN_POOL \<rparr>) (Some ''alice'')
                (ext sys0))
             (senderPublicKey tx1) = Some ''alice''"
    by (simp add: ledger_defs)
  have 6: "undoUnconfirmed ledgerDispatcher (tx1\<lparr> status := UNCONFIRM_APPLIED \<rparr>) (Some ''alice'')
             (applyUnconfirmed ledgerDispatcher (tx1\<lparr> status := PUT_IN_POOL \<rparr>) (Some ''alice'')
                (ext sys0)) = ext sys0"
    by (simp add: ledger_defs)
  from push_then_remove_restores [OF 1 2 3 4 5 6, of True] 1 2 3 4 show ?thesis
    by simp
qed

subsection \<open>isPotentialConflict\<close>

lemma count_insort_cmp:
  "count_list (insort_cmp c x ys) y = count_list (x # ys) y"
  by (induction ys) auto

lemma count_sort_cmp: "count_list (sort_cmp c xs) y = count_list xs y"
  by (induction xs) (simp_all add: sort_cmp_def count_insort_cmp)

lemma length_insort_cmp: "length (insort_cmp c x ys) = Suc (length ys)"
  by (induction ys) auto

lemma length_sort_cmp: "length (sort_cmp c xs) = length xs"
  by (induction xs) (simp_all add: sort_cmp_def length_insort_cmp)


lemma indexOf_ge: "indexOf xs x \<ge> -1"
  by (induction xs) (auto simp: Let_def)

lemma indexOf_none: "indexOf xs x = -1 \<longleftrightarrow> x \<notin> set xs"
proof (induction xs)
  case Nil
  then show ?case by simp
next
  case (Cons y ys)
  then show ?case
    using indexOf_ge [of ys x] by (auto simp: Let_def)
qed

lemma indexOf_last:
  "xs \<noteq> [] \<Longrightarrow>
   (indexOf xs x = int (length xs) - 1) = (last xs = x \<and> count_list xs x = 1)"
proof (induction xs)
  case Nil
  then show ?case by simp
next
  case (Cons y ys)
  show ?case
  proof (cases "ys = []")
    case True
    then show ?thesis by auto
  next
    case False
    note IH = Cons.IH [OF False]
    show ?thesis
    proof (cases "y = x")
      case True
      have "last ys \<in> set ys" using False by simp
      then have "last ys = x \<Longrightarrow> count_list ys x \<noteq> 0"
        by (simp add: count_list_0_iff)
      then show ?thesis
        using True False by auto
    next
      case neq: False
      show ?thesis
      proof (cases "x \<in> set ys")
        case True
        then have "indexOf ys x \<noteq> -1" by (simp add: indexOf_none)
        then show ?thesis
          using neq False IH by (auto simp: Let_def)
      next
        case notin: False
        then have i: "indexOf ys x = -1" by (simp add: indexOf_none)
        have "last ys \<in> set ys" using False by simp
        then have "last ys \<noteq> x" using notin by auto
        then show ?thesis
          using neq False i by (simp add: Let_def)
      qed
    qed
  qed
qed

lemma isPotentialConflict_unfold:
  "isPotentialConflict typeNumber p trs =
     (if length (getByRecipientAddress p (senderAddress trs)
                 @ getBySenderAddress p (senderAddress trs)) = 0 then False
      else if trs_type trs = SIGNATURE then True
      else if trs_type trs = REGISTER
                \<and> find (\<lambda>t. trs_type t = REGISTER)
                      (getByRecipientAddress p (senderAddress trs)
                       @ getBySenderAddress p (senderAddress trs)) \<noteq> None
      then True
      else indexOf (sort_cmp (transactionSortFunc typeNumber)
                      ((getByRecipientAddress p (senderAddress trs)
                        @ getBySenderAddress p (senderAddress trs)) @ [trs])) trs
           \<noteq> int (length (sort_cmp (transactionSortFunc typeNumber)
                      ((getByRecipientAddress p (senderAddress trs)
                        @ getBySenderAddress p (senderAddress trs)) @ [trs]))) - 1)"
  unfolding isPotentialConflict_def Let_def getByRecipientAddress_def getBySenderAddress_def
  by (rule refl)

text \<open>
  C8, as amended.  \<open>isPotentialConflict\<close> is false when neither index holds a
  transaction under the sender's address; otherwise true for a \<open>SIGNATURE\<close>; true for a
  \<open>REGISTER\<close> when a dependent transaction is a \<open>REGISTER\<close>; and otherwise true
  exactly when the transaction is itself already among the dependent transactions, or
  sorting the dependent transactions together with it does not place it last.
\<close>

theorem isPotentialConflict_amended:
  "isPotentialConflict typeNumber p trs =
     (if getByRecipientAddress p (senderAddress trs) @ getBySenderAddress p (senderAddress trs)
           = []
      then False
      else if trs_type trs = SIGNATURE then True
      else if trs_type trs = REGISTER
                \<and> (\<exists>t \<in> set (getByRecipientAddress p (senderAddress trs)
                                @ getBySenderAddress p (senderAddress trs)).
                      trs_type t = REGISTER)
      then True
      else trs \<in> set (getByRecipientAddress p (senderAddress trs)
                        @ getBySenderAddress p (senderAddress trs))
           \<or> last (sort_cmp (transactionSortFunc typeNumber)
                      ((getByRecipientAddress p (senderAddress trs)
                        @ getBySenderAddress p (senderAddress trs)) @ [trs])) \<noteq> trs)"
proof -
  let ?deps = "getByRecipientAddress p (senderAddress trs)
               @ getBySenderAddress p (senderAddress trs)"
  let ?sorted = "sort_cmp (transactionSortFunc typeNumber) (?deps @ [trs])"
  have ne: "?sorted \<noteq> []"
    using length_sort_cmp [of "transactionSortFunc typeNumber" "?deps @ [trs]"] by auto
  have "count_list ?sorted trs = count_list ?deps trs + 1"
    by (simp add: count_sort_cmp)
  then have one: "(count_list ?sorted trs = 1) = (trs \<notin> set ?deps)"
    by (simp add: count_list_0_iff)
  have idx: "(indexOf ?sorted trs \<noteq> int (length ?sorted) - 1)
             = (trs \<in> set ?deps \<or> last ?sorted \<noteq> trs)"
    using indexOf_last [OF ne, of trs] one by blast
  have reg: "(find (\<lambda>t. trs_type t = REGISTER) ?deps \<noteq> None)
             = (\<exists>t \<in> set ?deps. trs_type t = REGISTER)"
    by (auto simp: find_None_iff)
  show ?thesis
    unfolding isPotentialConflict_unfold idx reg by simp
qed


text \<open>
  The claim as stated fails when the transaction is already staged: after \<open>tx1\<close> was
  pushed, the dependent transactions of \<open>tx1\<close> are \<open>tx1\<close> itself, the sorted list is
  \<open>[tx1, tx1]\<close> with \<open>tx1\<close> in the last position, and \<^verbatim>\<open>indexOf\<close> finds the first of
  the two, so the answer is true.
\<close>

lemma pushedOnce_value:
  "pushedOnce =
     (tx1\<lparr> status := UNCONFIRM_APPLIED \<rparr>,
      \<lparr> pool = [(''a1'', tx1\<lparr> status := UNCONFIRM_APPLIED \<rparr>)],
        poolByRecipient = [''bob'' \<mapsto> [tx1\<lparr> status := UNCONFIRM_APPLIED \<rparr>]],
        poolBySender = [''alice'' \<mapsto> [tx1\<lparr> status := UNCONFIRM_APPLIED \<rparr>]] \<rparr>,
      snd (snd pushedOnce))"
  by (simp add: pushedOnce_def push_def has_def Let_def addOneToPoolByRecipient_def
      emptyPool_def tx1_def mkTrs_def sendTo_def noAsset_def)

theorem isPotentialConflict_counterexample:
  "isPotentialConflict typeNumbers (fst (snd pushedOnce)) (fst pushedOnce)
   \<and> trs_type (fst pushedOnce) = SEND
   \<and> last (sort_cmp (transactionSortFunc typeNumbers)
        ((getByRecipientAddress (fst (snd pushedOnce)) (senderAddress (fst pushedOnce))
          @ getBySenderAddress (fst (snd pushedOnce)) (senderAddress (fst pushedOnce)))
         @ [fst pushedOnce]))
     = fst pushedOnce"
proof -
  have deps: "getByRecipientAddress (fst (snd pushedOnce)) (senderAddress (fst pushedOnce))
              @ getBySenderAddress (fst (snd pushedOnce)) (senderAddress (fst pushedOnce))
              = [fst pushedOnce]"
    by (subst (1 2 3 4 5) pushedOnce_value)
       (simp add: getByRecipientAddress_def getBySenderAddress_def tx1_def mkTrs_def)
  have sorted: "sort_cmp (transactionSortFunc typeNumbers) ([fst pushedOnce] @ [fst pushedOnce])
                = [fst pushedOnce, fst pushedOnce]"
    by (simp add: sort_cmp_def transactionSortFunc_def)
  have type: "trs_type (fst pushedOnce) = SEND"
    by (subst pushedOnce_value) (simp add: tx1_def mkTrs_def)
  have "isPotentialConflict typeNumbers (fst (snd pushedOnce)) (fst pushedOnce)"
    by (simp only: isPotentialConflict_unfold deps sorted type) simp
  then show ?thesis
    using type by (simp only: deps sorted) simp
qed

subsection \<open>popSortedUnconfirmedTransactions\<close>























section \<open>Properties of the block service\<close>

subsection \<open>deleteLastBlock on the genesis block\<close>

text \<open>
  C9.  When the last stored block has height 1, \<open>deleteLastBlock\<close> returns the failure
  \<open>Cannot delete genesis block\<close> and the state it returns is the state it was given:
  the collaborators' state (block storage, rounds with their \<open>isForged\<close> flags,
  accounts) is unchanged and the call log has no new entry, so no \<open>deleteById\<close> was
  called.
\<close>

theorem deleteLastBlock_genesis:
  assumes "getLast (Storage E) (ext s) = Some lastBlock" and "height lastBlock = 1"
  shows "deleteLastBlock E s
         = (Inr \<lparr> errors = [''Cannot delete genesis block''], data = None \<rparr>, s)"
  using assms by (simp add: deleteLastBlock_def)

theorem deleteLastBlock_genesis_witness:
  "getLast (Storage ledgerEnv) (ext sys0) = Some genesis \<and> height genesis = 1
   \<and> deleteLastBlock ledgerEnv sys0
       = (Inr \<lparr> errors = [''Cannot delete genesis block''], data = None \<rparr>, sys0)"
proof -
  have g: "getLast (Storage ledgerEnv) (ext sys0) = Some genesis"
    by (simp add: ledgerEnv_def ledgerStorage_def sys0_def world0_def)
  have h: "height genesis = 1"
    by (simp add: genesis_def)
  from deleteLastBlock_genesis [OF g h] g h show ?thesis by simp
qed

subsection \<open>validateReceivedBlock\<close>




subsection \<open>The bytes of a block\<close>

lemma upt4: "[0..<4] = [0, 1, 2, 3]" by (simp add: upt_rec)
lemma upt8: "[0..<8] = [0, 1, 2, 3, 4, 5, 6, 7]" by (simp add: upt_rec)

lemma le_bytes_4: "le_bytes 4 v = map (\<lambda>k. word_of_int (v div 256 ^ k)) [0, 1, 2, 3]"
  by (simp only: le_bytes_def upt4)
lemma le_bytes_8: "le_bytes 8 v = map (\<lambda>k. word_of_int (v div 256 ^ k)) [0, 1, 2, 3, 4, 5, 6, 7]"
  by (simp only: le_bytes_def upt8)

lemma length_le_bytes: "length (le_bytes n v) = n"
  by (simp add: le_bytes_def)

lemma write_fixed:
  assumes "length a = 4" "length b = 4" "length c = 4" "length d = 8" "length e = 8"
  shows "write_at (write_at (write_at (write_at (write_at (replicate 32 0) 0 a) 4 b) 8 c) 12 d)
           20 e = a @ b @ c @ d @ e @ replicate 4 0"
proof -
  have 1: "write_at (replicate 32 0) 0 a = a @ replicate 28 0"
    using assms by (simp add: write_at_def)
  have 2: "write_at (a @ replicate 28 0) 4 b = a @ b @ replicate 24 0"
    using assms by (simp add: write_at_def)
  have 3: "write_at (a @ b @ replicate 24 0) 8 c = a @ b @ c @ replicate 20 0"
    using assms by (simp add: write_at_def)
  have 4: "write_at (a @ b @ c @ replicate 20 0) 12 d = a @ b @ c @ d @ replicate 12 0"
    using assms by (simp add: write_at_def)
  have 5: "write_at (a @ b @ c @ d @ replicate 12 0) 20 e = a @ b @ c @ d @ e @ replicate 4 0"
    using assms by (simp add: write_at_def)
  show ?thesis by (simp only: 1 2 3 4 5)
qed

lemma getBytes_layout:
  "getBytes block skipSignature =
     le_bytes 4 (version block) @ le_bytes 4 (createdAt block)
     @ le_bytes 4 (transactionCount block) @ le_bytes 8 (amount block)
     @ le_bytes 8 (fee block) @ replicate 4 0
     @ from_hex (case previousBlockId block of None \<Rightarrow> [] | Some prev \<Rightarrow> prev)
     @ from_hex (payloadHash block) @ from_hex (generatorPublicKey block)
     @ from_hex (if \<not> skipSignature \<and> signature block \<noteq> [] then signature block else [])"
proof -
  have size: "BLOCK_BUFFER_SIZE = 32"
    by (simp add: BLOCK_BUFFER_SIZE_def BUFFER_LENGTH_UINT32_def BUFFER_LENGTH_INT64_def)
  have fixed: "write_at (write_at (write_at (write_at (write_at (replicate 32 0) 0
      (le_bytes 4 (version block))) 4 (le_bytes 4 (createdAt block))) 8
      (le_bytes 4 (transactionCount block))) 12 (le_bytes 8 (amount block))) 20
      (le_bytes 8 (fee block))
    = le_bytes 4 (version block) @ le_bytes 4 (createdAt block)
     @ le_bytes 4 (transactionCount block) @ le_bytes 8 (amount block)
     @ le_bytes 8 (fee block) @ replicate 4 0"
    by (rule write_fixed) (simp_all add: length_le_bytes)
  show ?thesis
    by (simp add: getBytes_def writeInt32LE_def writeUInt64LE_def size fixed
        del: replicate.simps)
qed

lemma from_hex_rep: "from_hex (concat (replicate n ''ab'')) = replicate n 171"
  by (induction n) (simp_all add: hexval_def)
lemma from_hex_rep2: "from_hex (concat (replicate n ''cd'')) = replicate n 205"
  by (induction n) (simp_all add: hexval_def)

text \<open>
  C4.  The fixed portion that \<open>getBytes\<close> writes is 32 bytes long, not 28: the buffer
  is allocated with \<open>BLOCK_BUFFER_SIZE\<close>, which counts 8 bytes for the timestamp, while
  \<open>createdAt\<close> is written as 4 bytes, so four zero bytes follow the fee and precede the
  decoded \<open>previousBlockId\<close>.  Here on \<open>sampleBlock\<close> with the signature skipped.
\<close>

theorem getBytes_sample:
  "getBytes sampleBlock True =
     [1, 0, 0, 0,  10, 0, 0, 0,  2, 0, 0, 0,  44, 1, 0, 0, 0, 0, 0, 0,  5, 0, 0, 0, 0, 0, 0, 0,
      0, 0, 0, 0]
     @ [0, 255] @ replicate 32 171 @ replicate 32 205"
proof -
  have r4: "replicate 4 (0::byte) = [0, 0, 0, 0]"
    by (simp add: numeral_eq_Suc)
  show ?thesis
    by (simp add: getBytes_layout sampleBlock_def le_bytes_4 le_bytes_8 hexval_def
      from_hex_rep from_hex_rep2 r4 del: replicate.simps)
qed

subsection \<open>verifyBlock and the slot of the block\<close>

lemma verifySignature_keeps:
  assumes "''Invalid block timestamp'' \<notin> set errs"
    and "crypto_sign_verify_detached C (from_hex (signature block)) (getHash C block True)
           (from_hex (generatorPublicKey block)) \<noteq> Inl ''Invalid block timestamp''"
  shows "''Invalid block timestamp'' \<notin> set (verifySignature C block errs)"
  using assms by (auto simp: verifySignature_def split: sum.splits)

lemma verifyPreviousBlock_keeps:
  "''Invalid block timestamp'' \<notin> set errs
   \<Longrightarrow> ''Invalid block timestamp'' \<notin> set (verifyPreviousBlock block errs)"
  by (simp add: verifyPreviousBlock_def)

lemma verifyVersion_keeps:
  "''Invalid block timestamp'' \<notin> set errs
   \<Longrightarrow> ''Invalid block timestamp'' \<notin> set (verifyVersion N block errs)"
  by (simp add: verifyVersion_def)

lemma verifyId_keeps:
  "''Invalid block timestamp'' \<notin> set errs
   \<Longrightarrow> ''Invalid block timestamp'' \<notin> set (verifyId C block errs)"
  by (simp add: verifyId_def Let_def)

lemma verifyPayload_loop_keeps:
  assumes "''Invalid block timestamp'' \<notin> set errs"
    and "Inl ''Invalid block timestamp'' \<notin> trsGetBytes D ` set txs"
  shows "''Invalid block timestamp''
           \<notin> set (fst (verifyPayload_loop D txs (errs, a, f, h, seen)))"
  using assms
proof (induction txs arbitrary: errs a f h seen)
  case Nil
  then show ?case by simp
next
  case (Cons trs rest)
  have bytes: "trsGetBytes D trs \<noteq> Inl ''Invalid block timestamp''"
    and rest: "Inl ''Invalid block timestamp'' \<notin> trsGetBytes D ` set rest"
    using Cons.prems(2) by auto
  let ?errs1 = "case trsGetBytes D trs of Inl e \<Rightarrow> errs @ [e] | Inr b \<Rightarrow> errs"
  let ?errs2 = "if trs_id trs \<in> set seen \<or> trs_id trs \<in> set objectPrototypeKeys
                then ?errs1 @ [''Encountered duplicate transaction: '' @ trs_id trs]
                else ?errs1"
  have 1: "''Invalid block timestamp'' \<notin> set ?errs1"
    using Cons.prems(1) bytes by (auto split: sum.splits)
  have 2: "''Invalid block timestamp'' \<notin> set ?errs2"
    using 1 by simp
  show ?case
    using Cons.IH [OF 2 rest] by (simp add: Let_def)
qed

lemma verifyPayload_keeps:
  assumes "''Invalid block timestamp'' \<notin> set errs"
    and "Inl ''Invalid block timestamp'' \<notin> trsGetBytes (Dispatcher E) ` set (transactions block)"
  shows "''Invalid block timestamp'' \<notin> set (verifyPayload E block errs)"
proof -
  let ?errs1 = "if int (length (transactions block)) \<noteq> transactionCount block
                then errs @ [''Included transactions do not match block transactions count'']
                else errs"
  let ?errs2 = "if int (length (transactions block)) > MAX_TRANSACTIONS_PER_BLOCK (NodeCfg E)
                then ?errs1 @ [''Number of transactions exceeds maximum per block'']
                else ?errs1"
  have 2: "''Invalid block timestamp'' \<notin> set ?errs2"
    using assms(1) by simp
  obtain errs3 ta tf h seen where
    loop: "verifyPayload_loop (Dispatcher E) (transactions block) (?errs2, 0, 0, [], [])
           = (errs3, ta, tf, h, seen)"
    by (metis prod_cases5)
  have 3: "''Invalid block timestamp'' \<notin> set errs3"
    using verifyPayload_loop_keeps [OF 2 assms(2), of 0 0 "[]" "[]"] loop by simp
  show ?thesis
    using 3 by (simp add: verifyPayload_def Let_def loop)
qed

text \<open>
  C5.  With a last block in the storage, and no exception text of the signature check
  or of a transaction's \<open>getBytes\<close> that happens to read \<open>Invalid block timestamp\<close>,
  \<open>verifyBlock\<close> returns a response, and that response carries the error
  \<open>Invalid block timestamp\<close> exactly when the slot of the block is not in the interval
  from the last block's slot (excluded) to the current slot plus the number of active
  delegates minus one (included).
\<close>

theorem verifyBlock_timestamp:
  assumes last: "getLast (Storage E) w = Some lastBlock"
    and sig: "crypto_sign_verify_detached (CryptoLib E) (from_hex (signature block))
                (getHash (CryptoLib E) block True) (from_hex (generatorPublicKey block))
              \<noteq> Inl ''Invalid block timestamp''"
    and bytes: "Inl ''Invalid block timestamp''
                  \<notin> trsGetBytes (Dispatcher E) ` set (transactions block)"
  shows "\<exists>r. verifyBlock E w block verify = Inr r
           \<and> (''Invalid block timestamp'' \<in> set (errors r))
             = (\<not> (getSlotNumber (RoundSvc E) (createdAt lastBlock)
                       < getSlotNumber (RoundSvc E) (createdAt block)
                    \<and> getSlotNumber (RoundSvc E) (createdAt block)
                       \<le> currentSlotNumber (RoundSvc E) w
                           + getActiveDelegatesCount (RoundSvc E) w - 1))"
proof -
  let ?errs1 = "if verify then verifySignature (CryptoLib E) block [] else []"
  let ?errs2 = "verifyPreviousBlock block ?errs1"
  let ?errs3 = "verifyVersion (NodeCfg E) block ?errs2"
  let ?errs4 = "if verify then verifyPayload E block (verifyId (CryptoLib E) block ?errs3)
                else ?errs3"
  have 1: "''Invalid block timestamp'' \<notin> set ?errs1"
    using verifySignature_keeps [OF _ sig, of "[]"] by simp
  have 3: "''Invalid block timestamp'' \<notin> set ?errs3"
    by (intro verifyVersion_keeps verifyPreviousBlock_keeps 1)
  have "''Invalid block timestamp'' \<notin> set (verifyId (CryptoLib E) block ?errs3)"
    using 3 by (rule verifyId_keeps)
  then have "''Invalid block timestamp''
               \<notin> set (verifyPayload E block (verifyId (CryptoLib E) block ?errs3))"
    using bytes by (rule verifyPayload_keeps)
  with 3 have 4: "''Invalid block timestamp'' \<notin> set ?errs4"
    by (cases verify) simp_all
  show ?thesis
    using 4 by (auto simp: verifyBlock_def verifyBlockSlotNumber_def last Let_def
        response_errors_def)
qed

text \<open>
  The witness verifies the block of three transfers, signature and payload included,
  against the genesis block.
\<close>

theorem verifyBlock_timestamp_witness:
  "getLast (Storage ledgerEnv) world0 = Some genesis
   \<and> (\<exists>r. verifyBlock ledgerEnv world0 threeTransfers True = Inr r
           \<and> (''Invalid block timestamp'' \<in> set (errors r))
             = (\<not> (getSlotNumber (RoundSvc ledgerEnv) (createdAt genesis)
                       < getSlotNumber (RoundSvc ledgerEnv) (createdAt threeTransfers)
                    \<and> getSlotNumber (RoundSvc ledgerEnv) (createdAt threeTransfers)
                       \<le> currentSlotNumber (RoundSvc ledgerEnv) world0
                           + getActiveDelegatesCount (RoundSvc ledgerEnv) world0 - 1)))"
proof -
  have last: "getLast (Storage ledgerEnv) world0 = Some genesis"
    by (simp add: ledgerEnv_def ledgerStorage_def world0_def)
  have sig: "crypto_sign_verify_detached (CryptoLib ledgerEnv)
                (from_hex (signature threeTransfers))
                (getHash (CryptoLib ledgerEnv) threeTransfers True)
                (from_hex (generatorPublicKey threeTransfers))
              \<noteq> Inl ''Invalid block timestamp''"
    by (simp add: ledgerEnv_def ledgerCrypto_def)
  have bytes: "Inl ''Invalid block timestamp''
                  \<notin> trsGetBytes (Dispatcher ledgerEnv) ` set (transactions threeTransfers)"
    by (auto simp: ledgerEnv_def ledgerDispatcher_def)
  from verifyBlock_timestamp [OF last sig bytes, of True] last show ?thesis
    by blast
qed

subsection \<open>Rollback in checkTransactionsAndApplyUnconfirmed\<close>

lemma appliedUnconfirmed_append:
  "appliedUnconfirmed A D (xs @ ys) w = appliedUnconfirmed A D ys (appliedUnconfirmed A D xs w)"
  by (induction xs arbitrary: w) simp_all

lemma appliedUnconfirmed_Suc:
  assumes "k < length txs"
  shows "appliedUnconfirmed A D (take (Suc k) txs) w =
           applyUnconfirmed D (txs ! k)
             (Some (fst (resolveSender A (txs ! k) (appliedUnconfirmed A D (take k txs) w))))
             (snd (resolveSender A (txs ! k) (appliedUnconfirmed A D (take k txs) w)))"
  using assms by (simp add: take_Suc_conv_app_nth appliedUnconfirmed_append)

lemma rolledBack_append:
  "rolledBack A D (xs @ ys) w = rolledBack A D ys (rolledBack A D xs w)"
  by (induction xs arbitrary: w) simp_all

lemma check_loop_fails:
  assumes i: "i < length txs"
    and ok: "\<forall>j<i. success (verifyAt A D txs j w)"
    and bad: "\<not> success (verifyAt A D txs i w)"
  shows "k \<le> i \<Longrightarrow> ext s = appliedUnconfirmed A D (take k txs) w \<Longrightarrow>
         check_loop A D True txs k s =
           (int i - 1, errors (verifyAt A D txs i w), txs,
            s\<lparr> ext := snd (resolveSender A (txs ! i) (appliedUnconfirmed A D (take i txs) w)),
               calls := calls s @ map ApplyUnconfirmed (drop k (take i txs)) \<rparr>)"
proof (induction "i - k" arbitrary: k s)
  case 0
  then have k: "k = i" by simp
  have step: "check_step A D True txs i s =
          Inl (errors (verifyAt A D txs i w),
               s\<lparr> ext := snd (resolveSender A (txs ! i) (appliedUnconfirmed A D (take i txs) w)) \<rparr>)"
    using bad "0.prems"(2) by (simp add: check_step_def verifyAt_def Let_def k)
  show ?case
    using i by (subst check_loop.simps) (simp add: k step)
next
  case (Suc n)
  then have lt: "k < i" and n: "n = i - Suc k" by simp_all
  have klen: "k < length txs" using lt i by simp
  have good: "success (verifyAt A D txs k w)" using ok lt by simp
  let ?s1 = "logCalls [ApplyUnconfirmed (txs ! k)]
               (s\<lparr> ext := appliedUnconfirmed A D (take (Suc k) txs) w \<rparr>)"
  have step: "check_step A D True txs k s = Inr (txs, ?s1)"
    using good Suc.prems(2)
    by (simp add: check_step_def verifyAt_def Let_def appliedUnconfirmed_Suc [OF klen])
  have ext1: "ext ?s1 = appliedUnconfirmed A D (take (Suc k) txs) w"
    by (simp add: logCalls_def)
  have drop: "drop k (take i txs) = txs ! k # drop (Suc k) (take i txs)"
    using lt i by (simp add: Cons_nth_drop_Suc [symmetric])
  have "check_loop A D True txs k s = check_loop A D True txs (Suc k) ?s1"
    using klen by (subst check_loop.simps) (simp add: step)
  also have "\<dots> = (int i - 1, errors (verifyAt A D txs i w), txs,
            ?s1\<lparr> ext := snd (resolveSender A (txs ! i) (appliedUnconfirmed A D (take i txs) w)),
               calls := calls ?s1 @ map ApplyUnconfirmed (drop (Suc k) (take i txs)) \<rparr>)"
    using Suc.hyps(1) [OF n _ ext1] lt by simp
  finally show ?case
    by (simp add: logCalls_def drop)
qed

lemma undo_loop_result:
  "j \<le> length txs \<Longrightarrow>
   undo_loop A D txs (int j - 1) s =
     s\<lparr> ext := rolledBack A D (rev (take j txs)) (ext s),
        calls := calls s @ map UndoUnconfirmed (rev (take j txs)) \<rparr>"
proof (induction j arbitrary: s)
  case 0
  show ?case by (subst undo_loop.simps) simp
next
  case (Suc j)
  then have j: "j < length txs" by simp
  let ?t = "txs ! j"
  let ?s1 = "logCalls [UndoUnconfirmed ?t]
               (s\<lparr> ext := undoUnconfirmed D ?t (getByPublicKey A (ext s) (senderPublicKey ?t))
                            (ext s) \<rparr>)"
  have "undo_loop A D txs (int (Suc j) - 1) s = undo_loop A D txs (int j - 1) ?s1"
    by (subst undo_loop.simps) (simp add: Let_def)
  also have "\<dots> = ?s1\<lparr> ext := rolledBack A D (rev (take j txs)) (ext ?s1),
        calls := calls ?s1 @ map UndoUnconfirmed (rev (take j txs)) \<rparr>"
    using Suc.IH [of ?s1] j by simp
  finally show ?case
    using j by (simp add: logCalls_def take_Suc_conv_app_nth)
qed


lemma view_rolledBack:
  assumes undo_step:
    "\<forall>k<i. \<forall>v. obs v = obs (appliedUnconfirmed A D (take (Suc k) txs) w) \<longrightarrow>
        obs (undoUnconfirmed D (txs ! k) (getByPublicKey A v (senderPublicKey (txs ! k))) v)
        = obs (appliedUnconfirmed A D (take k txs) w)"
  shows "j \<le> i \<Longrightarrow> j \<le> length txs \<Longrightarrow> obs v = obs (appliedUnconfirmed A D (take j txs) w)
         \<Longrightarrow> obs (rolledBack A D (rev (take j txs)) v) = obs w"
proof (induction j arbitrary: v)
  case 0
  then show ?case by simp
next
  case (Suc j)
  then have j: "j < i" "j < length txs" by simp_all
  have "obs (undoUnconfirmed D (txs ! j) (getByPublicKey A v (senderPublicKey (txs ! j))) v)
        = obs (appliedUnconfirmed A D (take j txs) w)"
    using undo_step j(1) Suc.prems(3) by blast
  then have "obs (rolledBack A D (rev (take j txs))
               (undoUnconfirmed D (txs ! j) (getByPublicKey A v (senderPublicKey (txs ! j))) v))
             = obs w"
    using Suc.IH j by simp
  then show ?case
    using j(2) by (simp add: take_Suc_conv_app_nth)
qed

text \<open>
  C1.  With \<open>verify\<close> set, let \<open>verifyUnconfirmed\<close> pass for the transactions at
  positions below \<open>i\<close> and fail at position \<open>i\<close>.  Then
  \<open>checkTransactionsAndApplyUnconfirmed\<close> returns the failure with the errors of that
  verification; the dispatcher was called with \<open>applyUnconfirmed\<close> on the transactions
  at positions \<open>0\<close> to \<open>i - 1\<close> and then with \<open>undoUnconfirmed\<close> on those at positions
  \<open>i - 1\<close> down to \<open>0\<close>, and with nothing else: the failing transaction is not applied.
  For the net state, \<open>obs\<close> is any view of the collaborators' state (the unconfirmed
  account state) that resolving the failing transaction's sender leaves alone and on
  which each \<open>undoUnconfirmed\<close> reverses the \<open>applyUnconfirmed\<close> of its transaction (the
  dispatcher's contract): the view after the call is the view before it.
\<close>

theorem check_rollback:
  assumes i: "i < length (transactions block)"
    and ok: "\<forall>j<i. success (verifyAt A D (transactions block) j (ext s))"
    and bad: "\<not> success (verifyAt A D (transactions block) i (ext s))"
    and res:
      "obs (snd (resolveSender A (transactions block ! i)
                   (appliedUnconfirmed A D (take i (transactions block)) (ext s))))
       = obs (appliedUnconfirmed A D (take i (transactions block)) (ext s))"
    and undo_step:
      "\<forall>k<i. \<forall>v.
         obs v = obs (appliedUnconfirmed A D (take (Suc k) (transactions block)) (ext s)) \<longrightarrow>
         obs (undoUnconfirmed D (transactions block ! k)
                (getByPublicKey A v (senderPublicKey (transactions block ! k))) v)
         = obs (appliedUnconfirmed A D (take k (transactions block)) (ext s))"
  shows "\<exists>r s1.
           checkTransactionsAndApplyUnconfirmed A D block True s = (r, block, s1)
         \<and> \<not> success r
         \<and> errors r = errors (verifyAt A D (transactions block) i (ext s))
         \<and> calls s1 = calls s @ map ApplyUnconfirmed (take i (transactions block))
                         @ map UndoUnconfirmed (rev (take i (transactions block)))
         \<and> obs (ext s1) = obs (ext s)"
proof -
  let ?txs = "transactions block"
  let ?failed = "snd (resolveSender A (?txs ! i) (appliedUnconfirmed A D (take i ?txs) (ext s)))"
  let ?s1 = "s\<lparr> ext := ?failed, calls := calls s @ map ApplyUnconfirmed (take i ?txs) \<rparr>"
  let ?s2 = "?s1\<lparr> ext := rolledBack A D (rev (take i ?txs)) ?failed,
                  calls := calls ?s1 @ map UndoUnconfirmed (rev (take i ?txs)) \<rparr>"
  have loop: "check_loop A D True ?txs 0 s
              = (int i - 1, errors (verifyAt A D ?txs i (ext s)), ?txs, ?s1)"
    using check_loop_fails [OF i ok bad, of 0 s] by simp
  have undo: "undo_loop A D ?txs (int i - 1) ?s1 = ?s2"
    using undo_loop_result [of i ?txs A D ?s1] i by simp
  have errs: "errors (verifyAt A D ?txs i (ext s)) \<noteq> []"
    using bad by (simp add: success_def)
  have call: "checkTransactionsAndApplyUnconfirmed A D block True s
              = (response_errors (errors (verifyAt A D ?txs i (ext s))), block, ?s2)"
    using errs by (simp add: checkTransactionsAndApplyUnconfirmed_def loop undo)
  have view: "obs (rolledBack A D (rev (take i ?txs)) ?failed) = obs (ext s)"
    using view_rolledBack [OF undo_step, of i ?failed] i res by simp
  show ?thesis
    using call errs view by (simp add: success_def response_errors_def)
qed

lemma threeTransfers_txs: "transactions threeTransfers = [tx1, tx2, tx3]"
  by (simp add: threeTransfers_def)

lemma applied0: "appliedUnconfirmed ledgerAccounts ledgerDispatcher (take 0 [tx1, tx2, tx3]) world0 = world0"
  by simp

lemma applied1:
  "appliedUnconfirmed ledgerAccounts ledgerDispatcher (take (Suc 0) [tx1, tx2, tx3]) world0
   = world0\<lparr> accounts := [(''alice'', Some ''pkA'', 69), (''bob'', Some ''pkB'', 35)] \<rparr>"
  by (simp add: resolveSender_def ledger_defs response_errors_def response_ok_def)

lemma applied2:
  "appliedUnconfirmed ledgerAccounts ledgerDispatcher (take 2 [tx1, tx2, tx3]) world0
   = world0\<lparr> accounts := [(''alice'', Some ''pkA'', 28), (''bob'', Some ''pkB'', 75)] \<rparr>"
  by (simp add: numeral_2_eq_2 resolveSender_def ledger_defs response_errors_def response_ok_def)

theorem check_rollback_witness:
  "2 < length (transactions threeTransfers)
   \<and> \<not> success (verifyAt ledgerAccounts ledgerDispatcher (transactions threeTransfers) 2 (ext sys0))
   \<and> (\<exists>r s1.
         checkTransactionsAndApplyUnconfirmed ledgerAccounts ledgerDispatcher threeTransfers True sys0
           = (r, threeTransfers, s1)
       \<and> \<not> success r
       \<and> errors r = [''Not enough balance'']
       \<and> calls s1 = calls sys0 @ map ApplyUnconfirmed (take 2 (transactions threeTransfers))
                       @ map UndoUnconfirmed (rev (take 2 (transactions threeTransfers)))
       \<and> accounts (ext s1) = accounts (ext sys0))"
proof -
  have w: "ext sys0 = world0" by (simp add: sys0_def)
  have i: "2 < length (transactions threeTransfers)"
    by (simp add: threeTransfers_txs)
  have v0: "success (verifyAt ledgerAccounts ledgerDispatcher [tx1, tx2, tx3] 0 world0)"
    by (simp add: verifyAt_def success_def resolveSender_def ledger_defs response_errors_def
        response_ok_def)
  have v1: "success (verifyAt ledgerAccounts ledgerDispatcher [tx1, tx2, tx3] (Suc 0) world0)"
    by (simp add: verifyAt_def success_def resolveSender_def ledger_defs response_errors_def
        response_ok_def)
  have ok: "\<forall>j<2. success (verifyAt ledgerAccounts ledgerDispatcher (transactions threeTransfers) j
                          (ext sys0))"
    using v0 v1 by (simp add: threeTransfers_txs w less_2_cases_iff)
  have v2: "verifyAt ledgerAccounts ledgerDispatcher [tx1, tx2, tx3] 2 world0
            = response_errors [''Not enough balance'']"
    unfolding verifyAt_def applied2
    by (simp add: resolveSender_def ledger_defs)
  have bad: "\<not> success (verifyAt ledgerAccounts ledgerDispatcher (transactions threeTransfers) 2
                           (ext sys0))"
    by (simp add: threeTransfers_txs w v2 success_def response_errors_def)
  have res: "accounts (snd (resolveSender ledgerAccounts (transactions threeTransfers ! 2)
                   (appliedUnconfirmed ledgerAccounts ledgerDispatcher
                      (take 2 (transactions threeTransfers)) (ext sys0))))
       = accounts (appliedUnconfirmed ledgerAccounts ledgerDispatcher
                     (take 2 (transactions threeTransfers)) (ext sys0))"
    unfolding threeTransfers_txs w applied2
    by (simp add: resolveSender_def ledger_defs)
  have u0: "accounts v = accounts (appliedUnconfirmed ledgerAccounts ledgerDispatcher
                         (take (Suc 0) [tx1, tx2, tx3]) world0) \<Longrightarrow>
         accounts (undoUnconfirmed ledgerDispatcher ([tx1, tx2, tx3] ! 0)
                (getByPublicKey ledgerAccounts v (senderPublicKey ([tx1, tx2, tx3] ! 0))) v)
         = accounts (appliedUnconfirmed ledgerAccounts ledgerDispatcher
                       (take 0 [tx1, tx2, tx3]) world0)" for v
    unfolding applied1 applied0
    by (simp add: ledger_defs)
  have u1: "accounts v = accounts (appliedUnconfirmed ledgerAccounts ledgerDispatcher
                         (take (Suc (Suc 0)) [tx1, tx2, tx3]) world0) \<Longrightarrow>
         accounts (undoUnconfirmed ledgerDispatcher ([tx1, tx2, tx3] ! Suc 0)
                (getByPublicKey ledgerAccounts v (senderPublicKey ([tx1, tx2, tx3] ! Suc 0))) v)
         = accounts (appliedUnconfirmed ledgerAccounts ledgerDispatcher
                       (take (Suc 0) [tx1, tx2, tx3]) world0)" for v
    unfolding applied1 applied2 [unfolded numeral_2_eq_2]
    by (simp add: ledger_defs)
  have undo_step: "\<forall>k<2. \<forall>v.
         accounts v = accounts (appliedUnconfirmed ledgerAccounts ledgerDispatcher
                         (take (Suc k) (transactions threeTransfers)) (ext sys0)) \<longrightarrow>
         accounts (undoUnconfirmed ledgerDispatcher (transactions threeTransfers ! k)
                (getByPublicKey ledgerAccounts v (senderPublicKey (transactions threeTransfers ! k))) v)
         = accounts (appliedUnconfirmed ledgerAccounts ledgerDispatcher
                       (take k (transactions threeTransfers)) (ext sys0))"
    unfolding threeTransfers_txs w less_2_cases_iff using u0 u1 by blast
  have e: "errors (verifyAt ledgerAccounts ledgerDispatcher (transactions threeTransfers) 2 (ext sys0))
           = [''Not enough balance'']"
    by (simp add: threeTransfers_txs w v2 response_errors_def)
  from check_rollback [OF i ok bad res undo_step] i bad show ?thesis
    unfolding e by blast
qed

subsection \<open>process when the durable save fails\<close>

lemma undo_failed_apply_calls:
  "calls (undo_failed_apply A D ts s) =
     calls s @ concat (map (\<lambda>t. [UndoUnconfirmed t, QueuePush t,
                                   TransactionHistory t UNDO_BY_FAILED_APPLY]) ts)"
  by (induction ts arbitrary: s) (simp_all add: logCalls_def Let_def)

lemma check_loop_length:
  "check_loop A D verify txs k s = (i, errs, txs1, s1) \<Longrightarrow> length txs1 = length txs"
proof (induction A D verify txs k s rule: check_loop.induct)
  case (1 A D verify txs k s)
  show ?case
  proof (cases "k < length txs")
    case False
    then show ?thesis
      using "1.prems" by (subst (asm) check_loop.simps) simp
  next
    case True
    show ?thesis
    proof (cases "check_step A D verify txs k s")
      case (Inl a)
      then show ?thesis
        using "1.prems" True by (subst (asm) check_loop.simps) (auto split: prod.splits)
    next
      case (Inr b)
      obtain txs' s' where b: "b = (txs', s')" by (cases b)
      have len: "length txs' = length txs"
        using Inr b check_step_length by blast
      have "check_loop A D verify txs' (k + 1) s' = (i, errs, txs1, s1)"
        using "1.prems" True Inr b by (subst (asm) check_loop.simps) simp
      then have "length txs1 = length txs'"
        using "1.IH" [OF True Inr b [symmetric]] by simp
      then show ?thesis
        using len by simp
    qed
  qed
qed

lemma payload_loop_transactions:
  "payload_loop D ts b h = (r, b1, h1) \<Longrightarrow> transactions b1 = transactions b"
  by (induction ts arbitrary: b h) (auto simp: Let_def split: sum.splits if_splits)

lemma undo_failed_apply_ext:
  "ext (undo_failed_apply A D ts s) = undoneByAddress A D ts (ext s)"
  by (induction ts arbitrary: s) (simp_all add: logCalls_def Let_def)

lemma view_undone:
  assumes undo_step:
    "\<forall>k<n. \<forall>v. obs v = obs (st (Suc k)) \<longrightarrow>
        obs (undoUnconfirmed D (txs ! k) (getByAddress A v (senderAddress (txs ! k))) v)
        = obs (st k)"
  shows "j \<le> n \<Longrightarrow> j \<le> length txs \<Longrightarrow> obs v = obs (st j)
         \<Longrightarrow> obs (undoneByAddress A D (rev (take j txs)) v) = obs (st 0)"
proof (induction j arbitrary: v)
  case 0
  then show ?case by simp
next
  case (Suc j)
  then have j: "j < n" "j < length txs" by simp_all
  have "obs (undoUnconfirmed D (txs ! j) (getByAddress A v (senderAddress (txs ! j))) v)
        = obs (st j)"
    using undo_step j(1) Suc.prems(3) by blast
  then have "obs (undoneByAddress A D (rev (take j txs))
               (undoUnconfirmed D (txs ! j) (getByAddress A v (senderAddress (txs ! j))) v))
             = obs (st 0)"
    using Suc.IH j by simp
  then show ?case
    using j(2) by (simp add: take_Suc_conv_app_nth)
qed

lemma checkedPrefix_0: "checkedPrefix A D block verify 0 s = ext s"
  by (simp add: checkedPrefix_def checkTransactionsAndApplyUnconfirmed_def)
     (subst check_loop.simps, simp)

lemma checkedPrefix_all:
  assumes "checkTransactionsAndApplyUnconfirmed A D block verify s = (checked, block1, s2)"
  shows "checkedPrefix A D block verify (length (transactions block)) s = ext s2"
  using assms by (simp add: checkedPrefix_def)

lemma checked_length:
  assumes "checkTransactionsAndApplyUnconfirmed A D block verify s = (checked, block1, s2)"
  shows "length (transactions block1) = length (transactions block)"
proof -
  obtain i errs txs s1 where loop: "check_loop A D verify (transactions block) 0 s = (i, errs, txs, s1)"
    by (metis prod_cases4)
  have "length txs = length (transactions block)"
    using loop by (rule check_loop_length)
  then show ?thesis
    using assms by (auto simp: checkTransactionsAndApplyUnconfirmed_def loop)
qed

lemma hashed_frame:
  assumes "(case keyPair of
          None \<Rightarrow> (Inr \<lparr> errors = [], data = Some block1 \<rparr>, block1, s2)
        | Some kp \<Rightarrow> addPayloadHash E block1 kp s2)
       = (Inr hashResponse, block2, s3)"
  shows "length (transactions block2) = length (transactions block1) \<and> ext s3 = ext s2
         \<and> success hashResponse"
proof (cases keyPair)
  case None
  then show ?thesis using assms by (auto simp: success_def)
next
  case (Some kp)
  obtain r b h where pl: "payload_loop (Dispatcher E) (transactions block1) block1 [] = (r, b, h)"
    by (metis prod_cases3)
  have t: "transactions b = transactions block1"
    using pl by (rule payload_loop_transactions)
  show ?thesis
    using assms Some t
    by (cases r) (auto simp: addPayloadHash_def pl Let_def logCalls_def success_def)
qed

text \<open>
  C2, as amended.  When the verifications pass (or are skipped), the block is not
  stored yet, \<open>checkTransactionsAndApplyUnconfirmed\<close> succeeds and the durable
  \<open>batchSave\<close> then fails, \<open>process\<close> returns the errors of the save followed by
  \<open>applyBlock\<close> and \<open>process\<close>, and it does roll the unconfirmed applies back: after
  the save it calls \<open>undoUnconfirmed\<close> on every transaction of the block, last to first,
  each with the sender found by address, and pushes each to the queue; the
  collaborators' state is the state the save left, with those calls made on it.  For
  the net state, \<open>obs\<close> is any view of the collaborators' state (the unconfirmed account
  state) that the failed save leaves alone and on which each \<open>undoUnconfirmed\<close>
  reverses the \<open>applyUnconfirmed\<close> of its transaction (the dispatcher's contract): the
  view after \<open>process\<close> is the view before it.
\<close>

theorem process_save_failure:
  assumes verified: "verify \<longrightarrow> process_verify E block keyPair (ext s) = None"
    and fresh: "\<not> storageHas (Storage E) (ext s) (blk_id block)"
    and start:
      "s1 = (if verify
             then logCalls [BlockHistory block LC_VERIFY]
                    (logCalls [BlockHistory block LC_PROCESS] s)
             else logCalls [BlockHistory block LC_PROCESS] s)"
    and check:
      "checkTransactionsAndApplyUnconfirmed (AccountRepo E) (Dispatcher E) block verify s1
       = (checked, block1, s2)"
    and checked: "success checked"
    and hashed:
      "(case keyPair of
          None \<Rightarrow> (Inr \<lparr> errors = [], data = Some block1 \<rparr>, block1, s2)
        | Some kp \<Rightarrow> addPayloadHash E block1 kp s2)
       = (Inr hashResponse, block2, s3)"
    and save: "batchSave (Storage E) block2 (ext s3) = (saveResult, w4)"
    and failed: "\<not> success saveResult"
    and kept: "obs w4 = obs (ext s3)"
    and undo_step:
      "\<forall>k<length (transactions block2). \<forall>v.
         obs v = obs (checkedPrefix (AccountRepo E) (Dispatcher E) block verify (Suc k) s1) \<longrightarrow>
         obs (undoUnconfirmed (Dispatcher E) (transactions block2 ! k)
                (getByAddress (AccountRepo E) v (senderAddress (transactions block2 ! k))) v)
         = obs (checkedPrefix (AccountRepo E) (Dispatcher E) block verify k s1)"
  shows "\<exists>s5.
           process E block broadcast keyPair verify s
             = (Inr (response_errors (errors saveResult @ [''applyBlock'', ''process''])),
                block2, s5)
         \<and> calls s5 = calls s3 @ [BatchSave block2]
             @ concat (map (\<lambda>t. [UndoUnconfirmed t, QueuePush t,
                                   TransactionHistory t UNDO_BY_FAILED_APPLY])
                         (rev (transactions block2)))
         \<and> ext s5 = undoneByAddress (AccountRepo E) (Dispatcher E)
                      (rev (transactions block2)) w4
         \<and> obs (ext s5) = obs (ext s)"
proof -
  let ?A = "AccountRepo E" and ?D = "Dispatcher E"
  let ?n = "length (transactions block2)"
  have frame: "?n = length (transactions block1)" "ext s3 = ext s2" "success hashResponse"
    using hashed_frame [OF hashed] by simp_all
  have len: "?n = length (transactions block)"
    using frame(1) checked_length [OF check] by simp
  have app: "applyBlock E block1 broadcast keyPair s2
             = (Inr (response_errors (errors saveResult @ [''applyBlock''])), block2,
                logCalls [BatchSave block2] (s3\<lparr> ext := w4 \<rparr>))"
    using hashed frame(3) save failed by (simp add: applyBlock_def Let_def)
  have nonempty: "\<not> success (response_errors (errors saveResult @ [''applyBlock'']))"
    by (simp add: success_def response_errors_def)
  have run: "process E block broadcast keyPair verify s
        = (Inr (response_errors (errors saveResult @ [''applyBlock'', ''process''])), block2,
           undo_failed_apply ?A ?D (rev (transactions block2))
             (logCalls [BatchSave block2] (s3\<lparr> ext := w4 \<rparr>)))"
    using verified fresh check checked app nonempty unfolding start
    by (cases verify) (simp_all add: process_def Let_def logCalls_def response_errors_def)
  have first: "checkedPrefix ?A ?D block verify 0 s1 = ext s"
    by (simp add: checkedPrefix_0 start logCalls_def)
  have last: "checkedPrefix ?A ?D block verify ?n s1 = ext s3"
    using checkedPrefix_all [OF check] by (simp add: len frame(2))
  have "obs (undoneByAddress ?A ?D (rev (take ?n (transactions block2))) w4)
        = obs (checkedPrefix ?A ?D block verify 0 s1)"
    using undo_step kept by (intro view_undone [where n = ?n]) (simp_all add: last)
  then have view: "obs (undoneByAddress ?A ?D (rev (transactions block2)) w4) = obs (ext s)"
    by (simp add: first)
  show ?thesis
    using view by (simp add: run undo_failed_apply_calls undo_failed_apply_ext logCalls_def)
qed


text \<open>
  The claim as stated fails: with the durable store down, \<open>process\<close> on a block of two
  transfers applies both unconfirmed, fails to save, and calls \<open>undoUnconfirmed\<close> on
  both; the balances are back at 100 and 5.
\<close>

lemma twoTransfers_txs: "transactions twoTransfers = [tx1, tx2]"
  by (simp add: twoTransfers_def)

lemma ext_logCalls: "ext (logCalls cs s) = ext s"
  by (simp add: logCalls_def)

lemma check_twoTransfers:
  "checkTransactionsAndApplyUnconfirmed ledgerAccounts ledgerDispatcher twoTransfers False
     (logCalls [BlockHistory twoTransfers LC_PROCESS] sysDown)
   = (response_errors [], twoTransfers,
      \<lparr> ext = world0\<lparr> accounts := [(''alice'', Some ''pkA'', 28), (''bob'', Some ''pkB'', 75)],
                       dbDown := True \<rparr>,
        calls = [BlockHistory twoTransfers LC_PROCESS, ApplyUnconfirmed tx1, ApplyUnconfirmed tx2] \<rparr>)"
proof -
  have step0: "check_step ledgerAccounts ledgerDispatcher False [tx1, tx2] 0
                 \<lparr> ext = world0\<lparr> dbDown := True \<rparr>, calls = [BlockHistory twoTransfers LC_PROCESS] \<rparr>
     = Inr ([tx1, tx2],
         \<lparr> ext = world0\<lparr> accounts := [(''alice'', Some ''pkA'', 69), (''bob'', Some ''pkB'', 35)],
                          dbDown := True \<rparr>,
           calls = [BlockHistory twoTransfers LC_PROCESS, ApplyUnconfirmed tx1] \<rparr>)"
    by (simp add: check_step_def resolveSender_def logCalls_def ledger_defs Let_def)
  have step1: "check_step ledgerAccounts ledgerDispatcher False [tx1, tx2] (Suc 0)
         \<lparr> ext = world0\<lparr> accounts := [(''alice'', Some ''pkA'', 69), (''bob'', Some ''pkB'', 35)],
                          dbDown := True \<rparr>,
           calls = [BlockHistory twoTransfers LC_PROCESS, ApplyUnconfirmed tx1] \<rparr>
     = Inr ([tx1, tx2],
         \<lparr> ext = world0\<lparr> accounts := [(''alice'', Some ''pkA'', 28), (''bob'', Some ''pkB'', 75)],
                          dbDown := True \<rparr>,
           calls = [BlockHistory twoTransfers LC_PROCESS, ApplyUnconfirmed tx1,
                    ApplyUnconfirmed tx2] \<rparr>)"
    by (simp add: check_step_def resolveSender_def logCalls_def ledger_defs Let_def)
  have loop: "check_loop ledgerAccounts ledgerDispatcher False [tx1, tx2] 0
                 \<lparr> ext = world0\<lparr> dbDown := True \<rparr>, calls = [BlockHistory twoTransfers LC_PROCESS] \<rparr>
     = (2, [], [tx1, tx2],
         \<lparr> ext = world0\<lparr> accounts := [(''alice'', Some ''pkA'', 28), (''bob'', Some ''pkB'', 75)],
                          dbDown := True \<rparr>,
           calls = [BlockHistory twoTransfers LC_PROCESS, ApplyUnconfirmed tx1,
                    ApplyUnconfirmed tx2] \<rparr>)"
    apply (subst check_loop.simps)
    apply (simp add: step0)
    apply (subst check_loop.simps)
    apply (simp add: step1)
    apply (subst check_loop.simps)
    apply simp
    done
  have b: "twoTransfers\<lparr> transactions := [tx1, tx2] \<rparr> = twoTransfers"
    by (simp add: twoTransfers_def)
  show ?thesis
    by (simp add: checkTransactionsAndApplyUnconfirmed_def twoTransfers_txs sysDown_def logCalls_def
        loop b)
qed

lemma prefix1_twoTransfers:
  "checkedPrefix ledgerAccounts ledgerDispatcher twoTransfers False (Suc 0)
     (logCalls [BlockHistory twoTransfers LC_PROCESS] sysDown)
   = world0\<lparr> accounts := [(''alice'', Some ''pkA'', 69), (''bob'', Some ''pkB'', 35)],
             dbDown := True \<rparr>"
proof -
  have step0: "check_step ledgerAccounts ledgerDispatcher False [tx1] 0
                 \<lparr> ext = world0\<lparr> dbDown := True \<rparr>, calls = [BlockHistory twoTransfers LC_PROCESS] \<rparr>
     = Inr ([tx1],
         \<lparr> ext = world0\<lparr> accounts := [(''alice'', Some ''pkA'', 69), (''bob'', Some ''pkB'', 35)],
                          dbDown := True \<rparr>,
           calls = [BlockHistory twoTransfers LC_PROCESS, ApplyUnconfirmed tx1] \<rparr>)"
    by (simp add: check_step_def resolveSender_def logCalls_def ledger_defs Let_def)
  have loop: "check_loop ledgerAccounts ledgerDispatcher False [tx1] 0
                 \<lparr> ext = world0\<lparr> dbDown := True \<rparr>, calls = [BlockHistory twoTransfers LC_PROCESS] \<rparr>
     = (1, [], [tx1],
         \<lparr> ext = world0\<lparr> accounts := [(''alice'', Some ''pkA'', 69), (''bob'', Some ''pkB'', 35)],
                          dbDown := True \<rparr>,
           calls = [BlockHistory twoTransfers LC_PROCESS, ApplyUnconfirmed tx1] \<rparr>)"
    apply (subst check_loop.simps)
    apply (simp add: step0)
    apply (subst check_loop.simps)
    apply simp
    done
  show ?thesis
    by (simp add: checkedPrefix_def checkTransactionsAndApplyUnconfirmed_def twoTransfers_txs
        sysDown_def logCalls_def loop)
qed

theorem process_save_failure_counterexample:
  "success (fst (checkTransactionsAndApplyUnconfirmed ledgerAccounts ledgerDispatcher twoTransfers False
                   (logCalls [BlockHistory twoTransfers LC_PROCESS] sysDown)))
   \<and> fst (process ledgerEnv twoTransfers False None False sysDown)
       = Inr (response_errors [''Connection terminated'', ''applyBlock'', ''process''])
   \<and> calls (snd (snd (process ledgerEnv twoTransfers False None False sysDown)))
       = [BlockHistory twoTransfers LC_PROCESS, ApplyUnconfirmed tx1, ApplyUnconfirmed tx2,
          BatchSave twoTransfers,
          UndoUnconfirmed tx2, QueuePush tx2, TransactionHistory tx2 UNDO_BY_FAILED_APPLY,
          UndoUnconfirmed tx1, QueuePush tx1, TransactionHistory tx1 UNDO_BY_FAILED_APPLY]
   \<and> accounts (ext (snd (snd (process ledgerEnv twoTransfers False None False sysDown))))
       = [(''alice'', Some ''pkA'', 100), (''bob'', Some ''pkB'', 5)]"
proof -
  have fresh: "\<not> storageHas (Storage ledgerEnv) (ext sysDown) (blk_id twoTransfers)"
    by (simp add: ledgerEnv_def ledgerStorage_def sysDown_def world0_def twoTransfers_def
        sampleBlock_def genesis_def)
  have check: "checkTransactionsAndApplyUnconfirmed (AccountRepo ledgerEnv) (Dispatcher ledgerEnv)
     twoTransfers False (logCalls [BlockHistory twoTransfers LC_PROCESS] sysDown)
   = (response_errors [], twoTransfers,
      \<lparr> ext = world0\<lparr> accounts := [(''alice'', Some ''pkA'', 28), (''bob'', Some ''pkB'', 75)],
                       dbDown := True \<rparr>,
        calls = [BlockHistory twoTransfers LC_PROCESS, ApplyUnconfirmed tx1,
                 ApplyUnconfirmed tx2] \<rparr>)"
    using check_twoTransfers by (simp add: ledgerEnv_def)
  have app: "applyBlock ledgerEnv twoTransfers False None
      \<lparr> ext = world0\<lparr> accounts := [(''alice'', Some ''pkA'', 28), (''bob'', Some ''pkB'', 75)],
                       dbDown := True \<rparr>,
        calls = [BlockHistory twoTransfers LC_PROCESS, ApplyUnconfirmed tx1,
                 ApplyUnconfirmed tx2] \<rparr>
    = (Inr (response_errors [''Connection terminated'', ''applyBlock'']), twoTransfers,
      \<lparr> ext = world0\<lparr> accounts := [(''alice'', Some ''pkA'', 28), (''bob'', Some ''pkB'', 75)],
                       dbDown := True \<rparr>,
        calls = [BlockHistory twoTransfers LC_PROCESS, ApplyUnconfirmed tx1,
                 ApplyUnconfirmed tx2, BatchSave twoTransfers] \<rparr>)"
    by (simp add: applyBlock_def ledgerEnv_def ledgerStorage_def success_def response_errors_def
        logCalls_def)
  have repo: "AccountRepo ledgerEnv = ledgerAccounts" "Dispatcher ledgerEnv = ledgerDispatcher"
    by (simp_all add: ledgerEnv_def)
  have proc: "process ledgerEnv twoTransfers False None False sysDown
    = (Inr (response_errors [''Connection terminated'', ''applyBlock'', ''process'']),
       twoTransfers,
       undo_failed_apply ledgerAccounts ledgerDispatcher [tx2, tx1]
         \<lparr> ext = world0\<lparr> accounts := [(''alice'', Some ''pkA'', 28), (''bob'', Some ''pkB'', 75)],
                       dbDown := True \<rparr>,
        calls = [BlockHistory twoTransfers LC_PROCESS, ApplyUnconfirmed tx1,
                 ApplyUnconfirmed tx2, BatchSave twoTransfers] \<rparr>)"
    using fresh
    by (simp add: process_def Let_def ext_logCalls check_twoTransfers app success_def
        response_errors_def repo twoTransfers_txs del: undo_failed_apply.simps)
  have c1: "success (fst (checkTransactionsAndApplyUnconfirmed ledgerAccounts ledgerDispatcher
                            twoTransfers False
                            (logCalls [BlockHistory twoTransfers LC_PROCESS] sysDown)))"
    by (simp add: check_twoTransfers success_def response_errors_def)
  have c2: "fst (process ledgerEnv twoTransfers False None False sysDown)
            = Inr (response_errors [''Connection terminated'', ''applyBlock'', ''process''])"
    by (simp add: proc)
  have c3: "calls (snd (snd (process ledgerEnv twoTransfers False None False sysDown)))
       = [BlockHistory twoTransfers LC_PROCESS, ApplyUnconfirmed tx1, ApplyUnconfirmed tx2,
          BatchSave twoTransfers,
          UndoUnconfirmed tx2, QueuePush tx2, TransactionHistory tx2 UNDO_BY_FAILED_APPLY,
          UndoUnconfirmed tx1, QueuePush tx1, TransactionHistory tx1 UNDO_BY_FAILED_APPLY]"
    by (simp add: proc undo_failed_apply_calls del: undo_failed_apply.simps)
  have c4: "accounts (ext (snd (snd (process ledgerEnv twoTransfers False None False sysDown))))
            = [(''alice'', Some ''pkA'', 100), (''bob'', Some ''pkB'', 5)]"
  proof -
    have "ext (snd (snd (process ledgerEnv twoTransfers False None False sysDown)))
          = undoneByAddress ledgerAccounts ledgerDispatcher [tx2, tx1]
              (world0\<lparr> accounts := [(''alice'', Some ''pkA'', 28), (''bob'', Some ''pkB'', 75)],
                       dbDown := True \<rparr>)"
      by (simp add: proc undo_failed_apply_ext
          del: undo_failed_apply.simps undoneByAddress.simps)
    then show ?thesis
      by (simp add: ledger_defs)
  qed
  show ?thesis
    by (intro conjI) (rule c1, rule c2, rule c3, rule c4)
qed

text \<open>
  The amended statement on the same run.
\<close>

theorem process_save_failure_witness:
  "\<not> storageHas (Storage ledgerEnv) (ext sysDown) (blk_id twoTransfers)
   \<and> success (fst (checkTransactionsAndApplyUnconfirmed (AccountRepo ledgerEnv)
                     (Dispatcher ledgerEnv) twoTransfers False
                     (logCalls [BlockHistory twoTransfers LC_PROCESS] sysDown)))
   \<and> \<not> success (response_errors [''Connection terminated''])
   \<and> (\<exists>s5.
         process ledgerEnv twoTransfers False None False sysDown
           = (Inr (response_errors
                     (errors (response_errors [''Connection terminated''])
                        @ [''applyBlock'', ''process''])),
              twoTransfers, s5)
       \<and> calls s5 =
           [BlockHistory twoTransfers LC_PROCESS, ApplyUnconfirmed tx1, ApplyUnconfirmed tx2]
           @ [BatchSave twoTransfers]
           @ concat (map (\<lambda>t. [UndoUnconfirmed t, QueuePush t,
                                 TransactionHistory t UNDO_BY_FAILED_APPLY])
                       (rev (transactions twoTransfers)))
       \<and> ext s5 = undoneByAddress (AccountRepo ledgerEnv) (Dispatcher ledgerEnv)
                    (rev (transactions twoTransfers))
                    (world0\<lparr> accounts := [(''alice'', Some ''pkA'', 28), (''bob'', Some ''pkB'', 75)],
                             dbDown := True \<rparr>)
       \<and> accounts (ext s5) = accounts (ext sysDown))"
proof -
  let ?s1 = "logCalls [BlockHistory twoTransfers LC_PROCESS] sysDown"
  let ?w2 = "world0\<lparr> accounts := [(''alice'', Some ''pkA'', 28), (''bob'', Some ''pkB'', 75)],
                     dbDown := True \<rparr>"
  let ?s2 = "\<lparr> ext = ?w2,
              calls = [BlockHistory twoTransfers LC_PROCESS, ApplyUnconfirmed tx1,
                       ApplyUnconfirmed tx2] \<rparr>"
  have repo: "AccountRepo ledgerEnv = ledgerAccounts" "Dispatcher ledgerEnv = ledgerDispatcher"
    by (simp_all add: ledgerEnv_def)
  have verified: "False \<longrightarrow> process_verify ledgerEnv twoTransfers None (ext sysDown) = None"
    by simp
  have fresh: "\<not> storageHas (Storage ledgerEnv) (ext sysDown) (blk_id twoTransfers)"
    by (simp add: ledgerEnv_def ledgerStorage_def sysDown_def world0_def twoTransfers_def
        sampleBlock_def genesis_def)
  have start: "?s1 = (if False
          then logCalls [BlockHistory twoTransfers LC_VERIFY]
                 (logCalls [BlockHistory twoTransfers LC_PROCESS] sysDown)
          else logCalls [BlockHistory twoTransfers LC_PROCESS] sysDown)"
    by simp
  have check: "checkTransactionsAndApplyUnconfirmed (AccountRepo ledgerEnv) (Dispatcher ledgerEnv)
         twoTransfers False ?s1 = (response_errors [], twoTransfers, ?s2)"
    using check_twoTransfers by (simp add: repo)
  have checked: "success (response_errors [])"
    by (simp add: success_def response_errors_def)
  have hashed: "(case None of
          None \<Rightarrow> (Inr \<lparr> errors = [], data = Some twoTransfers \<rparr>, twoTransfers, ?s2)
        | Some kp \<Rightarrow> addPayloadHash ledgerEnv twoTransfers kp ?s2)
       = (Inr \<lparr> errors = [], data = Some twoTransfers \<rparr>, twoTransfers, ?s2)"
    by simp
  have save: "batchSave (Storage ledgerEnv) twoTransfers (ext ?s2)
              = (response_errors [''Connection terminated''], ?w2)"
    by (simp add: ledgerEnv_def ledgerStorage_def)
  have failed: "\<not> success (response_errors [''Connection terminated''])"
    by (simp add: success_def response_errors_def)
  have kept: "accounts ?w2 = accounts (ext ?s2)"
    by simp
  have p0: "checkedPrefix ledgerAccounts ledgerDispatcher twoTransfers False 0 ?s1
            = world0\<lparr> dbDown := True \<rparr>"
    by (simp add: checkedPrefix_0 logCalls_def sysDown_def)
  have p2: "checkedPrefix ledgerAccounts ledgerDispatcher twoTransfers False (Suc (Suc 0)) ?s1 = ?w2"
    using checkedPrefix_all [OF check_twoTransfers] by (simp add: twoTransfers_txs)
  have u0: "accounts v = accounts (checkedPrefix ledgerAccounts ledgerDispatcher twoTransfers
                                     False (Suc 0) ?s1) \<Longrightarrow>
         accounts (undoUnconfirmed ledgerDispatcher ([tx1, tx2] ! 0)
                (getByAddress ledgerAccounts v (senderAddress ([tx1, tx2] ! 0))) v)
         = accounts (checkedPrefix ledgerAccounts ledgerDispatcher twoTransfers False 0 ?s1)" for v
    unfolding prefix1_twoTransfers p0
    by (simp add: ledger_defs)
  have u1: "accounts v = accounts (checkedPrefix ledgerAccounts ledgerDispatcher twoTransfers
                                     False (Suc (Suc 0)) ?s1) \<Longrightarrow>
         accounts (undoUnconfirmed ledgerDispatcher ([tx1, tx2] ! Suc 0)
                (getByAddress ledgerAccounts v (senderAddress ([tx1, tx2] ! Suc 0))) v)
         = accounts (checkedPrefix ledgerAccounts ledgerDispatcher twoTransfers False (Suc 0) ?s1)" for v
    unfolding prefix1_twoTransfers p2
    by (simp add: ledger_defs)
  have undo_step: "\<forall>k<length (transactions twoTransfers). \<forall>v.
         accounts v = accounts (checkedPrefix (AccountRepo ledgerEnv) (Dispatcher ledgerEnv)
                                  twoTransfers False (Suc k) ?s1) \<longrightarrow>
         accounts (undoUnconfirmed (Dispatcher ledgerEnv) (transactions twoTransfers ! k)
                (getByAddress (AccountRepo ledgerEnv) v
                   (senderAddress (transactions twoTransfers ! k))) v)
         = accounts (checkedPrefix (AccountRepo ledgerEnv) (Dispatcher ledgerEnv)
                       twoTransfers False k ?s1)"
    unfolding twoTransfers_txs repo using u0 u1 by (auto simp: less_Suc_eq)
  have c: "success (fst (checkTransactionsAndApplyUnconfirmed (AccountRepo ledgerEnv)
                     (Dispatcher ledgerEnv) twoTransfers False ?s1))"
    using check checked by simp
  have w: "accounts (ext sysDown) = accounts world0"
    by (simp add: sysDown_def)
  from process_save_failure [OF verified fresh start check checked hashed save failed kept
      undo_step, of False]
    fresh c failed
  show ?thesis by simp
qed


end
